theory Spec2Isabelle
  imports Complex_Main "HOL-Library.Log_Nat"
begin

section \<open>The Playwright result tree\<close>

text \<open>
  \<^verbatim>\<open>summarize_playwright_json\<close> (report.py) reads a JSON document and walks it with
  \<^verbatim>\<open>dict.get\<close>. A well-formed result tree is a value of the types below: every key
  the walk reads is a field, a key that may be missing is an \<open>option\<close> (\<open>None\<close>: the key is
  absent), a JSON array is a list, a JSON string is a \<open>string\<close>, an integer is an \<open>int\<close>.
  Keys the walk never reads (a suite's own title, for instance) are left out.
  Characters are code points below 256.
\<close>

datatype attachment = Attachment (att_name: "string option") (att_body: "string option")

datatype result =
  Result (res_status: "string option") (res_duration: "int option")
    (res_attachments: "attachment list option")

datatype test = Test (test_results: "result list option")

datatype spec =
  Spec (sp_title: "string option") (sp_titlePath: "string list option")
    (sp_tests: "test list option")

datatype suite = Suite (su_specs: "spec list option") (su_suites: "suite list option")

datatype report = Report (rp_suites: "suite list option")

text \<open>The summary: four counters and the two lists of records the walk appends to.\<close>

datatype spec_entry =
  SpecEntry (se_title: string) (se_duration_ms: int) (se_status: string)

datatype failure_entry =
  FailureEntry (fe_title: string) (fe_duration_ms: int) (fe_error: "string option")

record summary =
  total :: int
  passed :: int
  failed :: int
  skipped :: int
  specs :: "spec_entry list"
  failures :: "failure_entry list"

section \<open>Python's library functions\<close>

text \<open>\<^verbatim>\<open>d.get(key, default)\<close> on a key that may be absent.\<close>

definition get_or :: "'a option \<Rightarrow> 'a \<Rightarrow> 'a" where
  "get_or v d = (case v of None \<Rightarrow> d | Some x \<Rightarrow> x)"

text \<open>
  Truth value of \<^verbatim>\<open>d.get(key)\<close> for a string-valued key: \<^verbatim>\<open>None\<close> and the empty string
  are false. \<^verbatim>\<open>x or d\<close> is \<open>x\<close> when \<open>x\<close> is true and \<open>d\<close> otherwise.
\<close>

definition truthy :: "string option \<Rightarrow> bool" where
  "truthy v = (case v of None \<Rightarrow> False | Some s \<Rightarrow> s \<noteq> [])"

definition py_or :: "string option \<Rightarrow> string \<Rightarrow> string" where
  "py_or v d = (if truthy v then the v else d)"

text \<open>
  \<^verbatim>\<open>str.isspace\<close> on one character, for the code points below 256: tab to carriage
  return, the four separators 28 to 31, space, NEL (133) and the no-break space (160).
\<close>

definition py_isspace :: "char \<Rightarrow> bool" where
  "py_isspace c =
     (let n = of_char c :: nat
      in (9 \<le> n \<and> n \<le> 13) \<or> (28 \<le> n \<and> n \<le> 32) \<or> n = 133 \<or> n = 160)"

text \<open>
  \<^verbatim>\<open>s.split()\<close>: the maximal runs of characters that are not white space, in order.
  The first argument is the word read so far.
\<close>

fun split_from :: "string \<Rightarrow> string \<Rightarrow> string list" where
  "split_from w [] = (if w = [] then [] else [w])"
| "split_from w (c # cs) =
     (if py_isspace c then (if w = [] then split_from [] cs else w # split_from [] cs)
      else split_from (w @ [c]) cs)"

definition py_split :: "string \<Rightarrow> string list" where
  "py_split s = split_from [] s"

text \<open>\<^verbatim>\<open>sep.join(parts)\<close>.\<close>

fun py_join :: "string \<Rightarrow> string list \<Rightarrow> string" where
  "py_join sep [] = []"
| "py_join sep [p] = p"
| "py_join sep (p # q # ps) = p @ sep @ py_join sep (q # ps)"

text \<open>A word: not empty, and no white space in it.\<close>

definition is_word :: "string \<Rightarrow> bool" where
  "is_word v = (v \<noteq> [] \<and> list_all (\<lambda>c. \<not> py_isspace c) v)"

text \<open>
  Python's strings hold Unicode code points, and \<^verbatim>\<open>str.split\<close> and \<^verbatim>\<open>str.join\<close> do the same
  on every alphabet. \<open>split_on\<close> and \<open>join_on\<close> are \<open>split_from\<close> and \<open>py_join\<close> with the
  alphabet and its white space as parameters; \<open>unicode_isspace\<close> is \<^verbatim>\<open>str.isspace\<close> on a
  code point, given as an integer.
\<close>

fun split_on :: "('c \<Rightarrow> bool) \<Rightarrow> 'c list \<Rightarrow> 'c list \<Rightarrow> 'c list list" where
  "split_on isspace w [] = (if w = [] then [] else [w])"
| "split_on isspace w (c # cs) =
     (if isspace c
      then (if w = [] then split_on isspace [] cs else w # split_on isspace [] cs)
      else split_on isspace (w @ [c]) cs)"

fun join_on :: "'c list \<Rightarrow> 'c list list \<Rightarrow> 'c list" where
  "join_on sep [] = []"
| "join_on sep [p] = p"
| "join_on sep (p # q # ps) = p @ sep @ join_on sep (q # ps)"

definition unicode_isspace :: "int \<Rightarrow> bool" where
  "unicode_isspace n =
     ((9 \<le> n \<and> n \<le> 13) \<or> (28 \<le> n \<and> n \<le> 32) \<or> n = 133 \<or> n = 160 \<or> n = 5760
      \<or> (8192 \<le> n \<and> n \<le> 8202) \<or> n = 8232 \<or> n = 8233 \<or> n = 8239 \<or> n = 8287
      \<or> n = 12288)"

section \<open>summarize\_playwright\_json\<close>

text \<open>
  Line 20: \<^verbatim>\<open>spec_title = " ".join(spec.get("titlePath", spec.get("title", "").split()))\<close>.
\<close>

definition spec_title :: "spec \<Rightarrow> string" where
  "spec_title sp =
     py_join '' '' (get_or (sp_titlePath sp) (py_split (get_or (sp_title sp) [])))"

text \<open>Lines 36 and 43: \<^verbatim>\<open>spec_title or spec.get("title", "")\<close>.\<close>

definition entry_title :: "spec \<Rightarrow> string" where
  "entry_title sp = (if spec_title sp \<noteq> [] then spec_title sp else get_or (sp_title sp) [])"

text \<open>
  Lines 20, 36 and 43 on an alphabet \<open>'c\<close> with white space \<open>isspace\<close> and space character
  \<open>space\<close>: \<^verbatim>\<open>" ".join(spec.get("titlePath", spec.get("title", "").split()))\<close>, then
  \<^verbatim>\<open>spec_title or spec.get("title", "")\<close>.
\<close>

definition title_of ::
    "('c \<Rightarrow> bool) \<Rightarrow> 'c \<Rightarrow> 'c list list option \<Rightarrow> 'c list option \<Rightarrow> 'c list" where
  "title_of isspace space path raw =
     (let spec_title = join_on [space] (get_or path (split_on isspace [] (get_or raw [])))
      in if spec_title \<noteq> [] then spec_title else get_or raw [])"

text \<open>
  Lines 30 to 34: the loop over the attachments, left at the first one whose name is
  \<^verbatim>\<open>"error"\<close> and whose body is true.
\<close>

fun find_err :: "attachment list \<Rightarrow> string option" where
  "find_err [] = None"
| "find_err (a # as) =
     (if att_name a = Some ''error'' \<and> truthy (att_body a) then att_body a else find_err as)"

text \<open>
  Lines 23 to 46, the body of the innermost loop, on the counters and lists that
  \<^verbatim>\<open>walk_suites\<close> holds as \<^verbatim>\<open>nonlocal\<close> variables.
\<close>

definition visit_result :: "spec \<Rightarrow> result \<Rightarrow> summary \<Rightarrow> summary" where
  "visit_result sp r st =
     (let status = res_status r;
          duration_ms = get_or (res_duration r) 0;
          st1 = st\<lparr>total := total st + 1\<rparr>;
          st2 =
            (if status = Some ''passed'' then st1\<lparr>passed := passed st1 + 1\<rparr>
             else if status = Some ''failed'' then
               st1\<lparr>failed := failed st1 + 1,
                   failures := failures st1 @
                     [FailureEntry (entry_title sp) duration_ms
                        (find_err (get_or (res_attachments r) []))]\<rparr>
             else if status = Some ''skipped'' \<or> status = Some ''timedOut''
                       \<or> status = Some ''interrupted''
               then st1\<lparr>skipped := skipped st1 + 1\<rparr>
             else st1)
      in st2\<lparr>specs := specs st2 @
           [SpecEntry (entry_title sp) duration_ms (py_or status ''unknown'')]\<rparr>)"

text \<open>Lines 21 and 22, and line 19: the loops over the results, the tests and the specs.\<close>

definition visit_test :: "spec \<Rightarrow> test \<Rightarrow> summary \<Rightarrow> summary" where
  "visit_test sp t st = fold (visit_result sp) (get_or (test_results t) []) st"

definition visit_spec :: "spec \<Rightarrow> summary \<Rightarrow> summary" where
  "visit_spec sp st = fold (visit_test sp) (get_or (sp_tests sp) []) st"

text \<open>
  Lines 14 to 47: \<^verbatim>\<open>walk_suites\<close>. An empty list is left at once (line 16); for each
  suite its specs come first, then the nested suites (line 47), then the next suite.
\<close>

function walk_suites :: "suite list \<Rightarrow> summary \<Rightarrow> summary" where
  "walk_suites [] st = st"
| "walk_suites (s # rest) st =
     walk_suites rest
       (walk_suites (get_or (su_suites s) []) (fold visit_spec (get_or (su_specs s) []) st))"
  by pat_completeness auto
termination
proof (relation "measure (\<lambda>(ss, st). size_list size ss)")
  show "wf (measure (\<lambda>(ss, st :: summary). size_list size ss))"
    by simp
next
  fix s :: suite and rest :: "suite list" and st :: summary
  show "((get_or (su_suites s) [], fold visit_spec (get_or (su_specs s) []) st), s # rest, st)
          \<in> measure (\<lambda>(ss, st). size_list size ss)"
    by (cases s; cases "su_suites s") (auto simp: get_or_def)
next
  fix s :: suite and rest :: "suite list" and st :: summary
  show "((rest, walk_suites (get_or (su_suites s) [])
                  (fold visit_spec (get_or (su_specs s) []) st)), s # rest, st)
          \<in> measure (\<lambda>(ss, st). size_list size ss)"
    by simp
qed

text \<open>Lines 9 to 12 and 49 to 57, on the parsed document.\<close>

definition summarize_playwright_json :: "report \<Rightarrow> summary" where
  "summarize_playwright_json data =
     walk_suites (get_or (rp_suites data) [])
       \<lparr>total = 0, passed = 0, failed = 0, skipped = 0, specs = [], failures = []\<rparr>"

section \<open>The Result nodes of a tree\<close>

text \<open>
  The Result nodes of a tree in document order, each with the Spec it stands under.
  This is the tree read as data, with no counter and no accumulator.
\<close>

definition results_of_test :: "test \<Rightarrow> result list" where
  "results_of_test t = (case test_results t of None \<Rightarrow> [] | Some rs \<Rightarrow> rs)"

definition results_of_spec :: "spec \<Rightarrow> (spec \<times> result) list" where
  "results_of_spec sp =
     (case sp_tests sp of None \<Rightarrow> []
      | Some ts \<Rightarrow> map (Pair sp) (concat (map results_of_test ts)))"

fun results_of_suite :: "suite \<Rightarrow> (spec \<times> result) list" where
  "results_of_suite (Suite sps sus) =
     (case sps of None \<Rightarrow> [] | Some l \<Rightarrow> concat (map results_of_spec l)) @
     (case sus of None \<Rightarrow> [] | Some l \<Rightarrow> concat (map results_of_suite l))"

definition results_of_report :: "report \<Rightarrow> (spec \<times> result) list" where
  "results_of_report data =
     (case rp_suites data of None \<Rightarrow> [] | Some l \<Rightarrow> concat (map results_of_suite l))"

text \<open>The statuses that fall into one of the three buckets.\<close>

definition bucket_statuses :: "string set" where
  "bucket_statuses = {''passed'', ''failed'', ''skipped'', ''timedOut'', ''interrupted''}"

definition in_bucket :: "result \<Rightarrow> bool" where
  "in_bucket r = (case res_status r of None \<Rightarrow> False | Some s \<Rightarrow> s \<in> bucket_statuses)"

text \<open>
  The error text as the specification words it: the body of the first attachment
  named \<^verbatim>\<open>"error"\<close> that has a non-empty body, and none when there is no such
  attachment.
\<close>

definition names_error :: "attachment \<Rightarrow> bool" where
  "names_error a =
     (att_name a = Some ''error'' \<and> att_body a \<noteq> None \<and> att_body a \<noteq> Some [])"

definition first_error_body :: "attachment list \<Rightarrow> string option" where
  "first_error_body atts =
     (case List.find names_error atts of None \<Rightarrow> None | Some a \<Rightarrow> att_body a)"

text \<open>
  The title resolution rule as the specification words it, with no scan and no
  accumulator. The words of a text are its maximal runs of characters that are not white
  space: skip the white space in front, take the characters up to the next white space,
  go on behind them. Joining by spaces puts one space in front of every word but the
  first. The title is the path segments joined by spaces if a path is present, else the
  words of the raw title joined by spaces; it is the raw title (the empty text when it
  is absent) if both are absent or the result is empty.
\<close>

function words_of :: "('c \<Rightarrow> bool) \<Rightarrow> 'c list \<Rightarrow> 'c list list" where
  "words_of isspace s =
     (let t = dropWhile isspace s
      in if t = [] then []
         else takeWhile (\<lambda>c. \<not> isspace c) t
                # words_of isspace (dropWhile (\<lambda>c. \<not> isspace c) t))"
  by pat_completeness auto
termination
proof (relation "measure (\<lambda>(isspace, s). length s)")
  show "wf (measure (\<lambda>(isspace :: 'c \<Rightarrow> bool, s). length s))"
    by simp
next
  fix isspace :: "'c \<Rightarrow> bool" and s t :: "'c list"
  assume t: "t = dropWhile isspace s" and ne: "t \<noteq> []"
  obtain c cs where c: "t = c # cs"
    using ne by (cases t) simp_all
  have "dropWhile isspace s = c # cs"
    using t c by simp
  then have "\<not> isspace c"
    by (auto simp: dropWhile_eq_Cons_conv)
  then have "length (dropWhile (\<lambda>c. \<not> isspace c) t) \<le> length cs"
    by (simp add: c length_dropWhile_le)
  moreover have "length t \<le> length s"
    by (simp add: t length_dropWhile_le)
  ultimately show "((isspace, dropWhile (\<lambda>c. \<not> isspace c) t), isspace, s)
      \<in> measure (\<lambda>(isspace, s). length s)"
    by (simp add: c)
qed

declare words_of.simps [simp del]

definition spaced :: "'c \<Rightarrow> 'c list list \<Rightarrow> 'c list" where
  "spaced space ws =
     (case ws of [] \<Rightarrow> [] | w # rest \<Rightarrow> w @ concat (map (\<lambda>v. space # v) rest))"

definition normal_title ::
    "('c \<Rightarrow> bool) \<Rightarrow> 'c \<Rightarrow> 'c list list option \<Rightarrow> 'c list option \<Rightarrow> 'c list" where
  "normal_title isspace space path raw =
     (let resolved =
            (case path of Some segs \<Rightarrow> spaced space segs
             | None \<Rightarrow> (case raw of Some t \<Rightarrow> spaced space (words_of isspace t) | None \<Rightarrow> []))
      in if resolved = [] then (case raw of Some t \<Rightarrow> t | None \<Rightarrow> []) else resolved)"

text \<open>The rule on the alphabet of the result tree.\<close>

definition title_rule :: "string list option \<Rightarrow> string option \<Rightarrow> string" where
  "title_rule path raw = normal_title py_isspace (CHR '' '') path raw"

text \<open>The records a Result node stands for, given the Spec it is under.\<close>

definition is_failed :: "spec \<times> result \<Rightarrow> bool" where
  "is_failed pr = (res_status (snd pr) = Some ''failed'')"

definition recorded_status :: "result \<Rightarrow> string" where
  "recorded_status r =
     (case res_status r of None \<Rightarrow> ''unknown''
      | Some s \<Rightarrow> if s = [] then ''unknown'' else s)"

definition entry_of :: "spec \<times> result \<Rightarrow> spec_entry" where
  "entry_of pr =
     SpecEntry (title_rule (sp_titlePath (fst pr)) (sp_title (fst pr)))
       (case res_duration (snd pr) of None \<Rightarrow> 0 | Some d \<Rightarrow> d)
       (recorded_status (snd pr))"

definition failure_of :: "spec \<times> result \<Rightarrow> failure_entry" where
  "failure_of pr =
     FailureEntry (title_rule (sp_titlePath (fst pr)) (sp_title (fst pr)))
       (case res_duration (snd pr) of None \<Rightarrow> 0 | Some d \<Rightarrow> d)
       (first_error_body (case res_attachments (snd pr) of None \<Rightarrow> [] | Some l \<Rightarrow> l))"

text \<open>A tree with one result whose status is none of the five.\<close>

definition flaky_report :: report where
  "flaky_report =
     Report (Some [Suite (Some [Spec (Some ''Spec A'') None
       (Some [Test (Some [Result (Some ''flaky'') (Some 10) None])])]) None])"

text \<open>The tree of the repository's test (test\_report.py).\<close>

definition repo_test_report :: report where
  "repo_test_report =
     Report (Some [Suite
       (Some [Spec (Some ''Spec A'') (Some [''e2e'', ''Spec A''])
                (Some [Test (Some [Result (Some ''passed'') (Some 1200) None])]),
              Spec (Some ''Spec B'') (Some [''e2e'', ''Spec B''])
                (Some [Test (Some [Result (Some ''failed'') (Some 500)
                   (Some [Attachment (Some ''error'') (Some ''boom'')])])])])
       None])"

text \<open>
  The same tree with a nested suite added, which holds a spec with no title path, a
  timed-out result with no duration and a result with no status.
\<close>

definition test_report :: report where
  "test_report =
     Report (Some [Suite
       (Some [Spec (Some ''Spec A'') (Some [''e2e'', ''Spec A''])
                (Some [Test (Some [Result (Some ''passed'') (Some 1200) None])]),
              Spec (Some ''Spec B'') (Some [''e2e'', ''Spec B''])
                (Some [Test (Some [Result (Some ''failed'') (Some 500)
                   (Some [Attachment (Some ''error'') (Some ''boom'')])])])])
       (Some [Suite
          (Some [Spec (Some '' Spec  C '') None
                   (Some [Test (Some [Result (Some ''timedOut'') None None,
                                      Result None (Some 7) None])])])
          None])])"

section \<open>write\_junit\_xml\<close>

text \<open>
  \<^verbatim>\<open>str(n)\<close> for an integer: its decimal digits, with a minus sign when it is negative.
  \<open>digit\<close> is the character of a number from 0 to 9.
\<close>

definition digit :: "int \<Rightarrow> char" where
  "digit n = ''0123456789'' ! nat n"

function digits_of :: "int \<Rightarrow> string" where
  "digits_of n = (if n < 10 then [digit n] else digits_of (n div 10) @ [digit (n mod 10)])"
  by pat_completeness auto
termination
  by (relation "measure nat") auto

declare digits_of.simps [simp del]

definition py_str :: "int \<Rightarrow> string" where
  "py_str i = (if i < 0 then CHR ''-'' # digits_of (- i) else digits_of i)"

text \<open>
  A Python float is a binary64 number; a finite one is given here by the rational number
  it denotes. \<open>pow2 e\<close> is \<open>2\<close> to the power \<open>e\<close>, and \<open>round_half_even\<close> rounds to the
  nearest integer, a tie to the even one.
\<close>

definition pow2 :: "int \<Rightarrow> rat" where
  "pow2 e = (if 0 \<le> e then 2 ^ nat e else 1 / 2 ^ nat (- e))"

definition round_half_even :: "rat \<Rightarrow> int" where
  "round_half_even q =
     (let f = \<lfloor>q\<rfloor>; d = q - of_int f
      in if d < 1 / 2 then f else if 1 / 2 < d then f + 1 else if even f then f else f + 1)"

text \<open>
  \<^verbatim>\<open>a / b\<close> on two integers: the binary64 number nearest to the quotient (a tie to the
  even significand). \<open>e\<close> is the exponent of the quotient, \<open>2 ^ e \<le> |q| < 2 ^ (e + 1)\<close>;
  the significand has 53 bits, and the least exponent of a unit in the last place is
  \<open>-1074\<close>. A result of magnitude \<open>2 ^ 1024\<close> or more is \<^verbatim>\<open>OverflowError\<close>. The sign of a
  zero is not kept (the divisor of line 70 is positive, so its zero is \<open>+0.0\<close>).
\<close>

datatype arith_error = ZeroDivisionError | OverflowError

definition py_truediv :: "int \<Rightarrow> int \<Rightarrow> arith_error + rat" where
  "py_truediv a b =
     (if b = 0 then Inl ZeroDivisionError
      else if a = 0 then Inr 0
      else
        let q = of_int a / of_int b;
            k = bitlen \<bar>a\<bar> - bitlen \<bar>b\<bar>;
            e = (if \<bar>q\<bar> < pow2 k then k - 1 else k);
            u = pow2 (max (e - 52) (- 1074));
            r = of_int (round_half_even (q / u)) * u
        in if pow2 1024 \<le> \<bar>r\<bar> then Inl OverflowError else Inr r)"

text \<open>
  \<^verbatim>\<open>f"{x:.3f}"\<close>: the decimal numeral with three digits after the point that is nearest
  to the float (a tie to the even last digit), with a minus sign for a negative float.
\<close>

definition py_format_3f :: "rat \<Rightarrow> string" where
  "py_format_3f x =
     (let n = round_half_even (\<bar>x\<bar> * 1000)
      in (if x < 0 then ''-'' else []) @ digits_of (n div 1000) @ ''.''
           @ [digit (n div 100 mod 10), digit (n div 10 mod 10), digit (n mod 10)])"

text \<open>Line 70: \<^verbatim>\<open>f"{spec['duration_ms']/1000:.3f}"\<close>.\<close>

definition time_attr :: "int \<Rightarrow> arith_error + string" where
  "time_attr duration_ms =
     (case py_truediv duration_ms 1000 of Inl x \<Rightarrow> Inl x | Inr v \<Rightarrow> Inr (py_format_3f v))"

text \<open>An element of \<^verbatim>\<open>xml.etree.ElementTree\<close>: tag, attributes, text and children.\<close>

datatype xml =
  Element (xml_tag: string) (xml_attrib: "(string \<times> string) list")
    (xml_text: "string option") (xml_children: "xml list")

text \<open>
  Lines 73 to 77: the message, \<^verbatim>\<open>"Test failed"\<close> to begin with; the loop over the failures
  is left at the first one with the title of the spec.
\<close>

fun find_msg :: "failure_entry list \<Rightarrow> string \<Rightarrow> string \<Rightarrow> string" where
  "find_msg [] title msg = msg"
| "find_msg (f # fs) title msg =
     (if fe_title f = title then py_or (fe_error f) msg else find_msg fs title msg)"

text \<open>Lines 68 to 80: the body of the loop over the specs, which makes one child.\<close>

definition testcase :: "failure_entry list \<Rightarrow> spec_entry \<Rightarrow> arith_error + xml" where
  "testcase fails spec =
     (case time_attr (se_duration_ms spec) of
        Inl x \<Rightarrow> Inl x
      | Inr t \<Rightarrow>
          Inr (Element ''testcase'' [(''name'', se_title spec), (''time'', t)] None
            (if se_status spec = ''failed'' then
               (let msg = find_msg fails (se_title spec) ''Test failed''
                in [Element ''failure'' [(''message'', msg)] (Some msg) []])
             else if se_status spec = ''skipped'' then [Element ''skipped'' [] None []]
             else [])))"

text \<open>Line 67: the loop over the specs; an exception ends it.\<close>

fun testcases :: "failure_entry list \<Rightarrow> spec_entry list \<Rightarrow> arith_error + xml list" where
  "testcases fails [] = Inr []"
| "testcases fails (spec # rest) =
     (case testcase fails spec of
        Inl x \<Rightarrow> Inl x
      | Inr tc \<Rightarrow> (case testcases fails rest of Inl x \<Rightarrow> Inl x | Inr tcs \<Rightarrow> Inr (tc # tcs)))"

text \<open>
  Lines 59 to 81. \<open>now\<close> is \<^verbatim>\<open>datetime.datetime.utcnow().isoformat()\<close>; the result is the
  element that line 81 writes to the file.
\<close>

definition write_junit_xml :: "string \<Rightarrow> summary \<Rightarrow> arith_error + xml" where
  "write_junit_xml now s =
     (case testcases (failures s) (specs s) of
        Inl x \<Rightarrow> Inl x
      | Inr tcs \<Rightarrow>
          Inr (Element ''testsuite''
                 [(''name'', ''choices-e2e''), (''tests'', py_str (total s)),
                  (''failures'', py_str (failed s)), (''skipped'', py_str (skipped s)),
                  (''timestamp'', now @ ''Z'')]
                 None tcs))"

text \<open>
  The children of the report as the specification words them. The message of a failed
  child is the error text of the first failure whose title is the title of the spec,
  and "Test failed" when there is no such failure or it has no error text. The time is
  the duration in milliseconds divided by 1000, with three decimal places:
  \<open>seconds_text\<close> is the text that line 70 gives, and \<open>three_decimals\<close> is the exact
  quotient of a duration that is not negative, written as the whole seconds, a point and
  the three digits of the milliseconds.
\<close>

definition three_decimals :: "int \<Rightarrow> string" where
  "three_decimals d =
     digits_of (d div 1000) @ ''.''
       @ [digit (d div 100 mod 10), digit (d div 10 mod 10), digit (d mod 10)]"

definition failure_message :: "failure_entry list \<Rightarrow> string \<Rightarrow> string" where
  "failure_message fails title =
     (case List.find (\<lambda>f. fe_title f = title) fails of
        None \<Rightarrow> ''Test failed''
      | Some f \<Rightarrow>
          (case fe_error f of None \<Rightarrow> ''Test failed''
           | Some t \<Rightarrow> if t = [] then ''Test failed'' else t))"

definition seconds_text :: "int \<Rightarrow> string" where
  "seconds_text d = (case time_attr d of Inl x \<Rightarrow> [] | Inr t \<Rightarrow> t)"

definition junit_child :: "failure_entry list \<Rightarrow> spec_entry \<Rightarrow> xml" where
  "junit_child fails spec =
     Element ''testcase''
       [(''name'', se_title spec), (''time'', seconds_text (se_duration_ms spec))] None
       (if se_status spec = ''failed'' then
          [Element ''failure'' [(''message'', failure_message fails (se_title spec))]
             (Some (failure_message fails (se_title spec))) []]
        else if se_status spec = ''skipped'' then [Element ''skipped'' [] None []]
        else [])"

text \<open>
  A text with exactly three decimal places: an optional minus sign, at least one digit,
  a point, three digits.
\<close>

definition is_digit :: "char \<Rightarrow> bool" where
  "is_digit c = (c \<in> set ''0123456789'')"

definition three_places :: "string \<Rightarrow> bool" where
  "three_places t =
     (\<exists>sign whole frac.
        t = sign @ whole @ ''.'' @ frac \<and> (sign = [] \<or> sign = ''-'') \<and>
        whole \<noteq> [] \<and> list_all is_digit whole \<and> length frac = 3 \<and> list_all is_digit frac)"

text \<open>
  The division of line 70 raises \<^verbatim>\<open>OverflowError\<close> when the quotient is too large for
  a float; then no report is written.
\<close>

definition overflows :: "int \<Rightarrow> bool" where
  "overflows d = (py_truediv d 1000 = Inl OverflowError)"

section \<open>The row-level-security smoke test\<close>

text \<open>
  rls\_smoke.py reads five environment variables, sends one GET request with the
  anonymous key and one with the service-role key, and returns an exit code from
  \<^verbatim>\<open>main\<close>. What \<^verbatim>\<open>json.loads\<close> returns is a JSON value; an object is the list of its
  members, read by \<open>map_of\<close>.
\<close>

datatype json =
  JNull | JBool bool | JInt int | JFloat rat | JStr string
  | JArr "json list" | JObj "(string \<times> json) list"

text \<open>
  The exceptions that \<^verbatim>\<open>fetch\<close> and \<^verbatim>\<open>main\<close> can raise and that are not
  \<^verbatim>\<open>HTTPError\<close>: \<^verbatim>\<open>URLError\<close> (no connection, name not resolved, a time-out while
  connecting), \<^verbatim>\<open>TimeoutError\<close> (the 20 second time-out while reading), a body that is
  not JSON or not UTF-8, and the \<^verbatim>\<open>AttributeError\<close> of \<^verbatim>\<open>r.get\<close> on a row that is not an
  object.
\<close>

datatype exc = URLError | TimeoutError | JSONDecodeError | UnicodeDecodeError | AttributeError

text \<open>
  What one call of \<^verbatim>\<open>fetch(url, key)\<close> does (lines 19 to 26): it returns the decoded body,
  or \<^verbatim>\<open>urlopen\<close> raises \<^verbatim>\<open>HTTPError\<close> with the status code of the response, or
  something else is raised. The network is a parameter: what the \<open>n\<close>-th request of the
  run does, given its URL and key.
\<close>

datatype outcome = Returned json | RaisedHTTPError int | Raised exc

type_synonym network = "nat \<Rightarrow> string \<Rightarrow> string \<Rightarrow> outcome"

definition fetch :: "network \<Rightarrow> nat \<Rightarrow> string \<Rightarrow> string \<Rightarrow> outcome" where
  "fetch net n url key = net n url key"

text \<open>
  Lines 28 to 32: \<^verbatim>\<open>try_fetch\<close> returns the pair (data, error). Only \<^verbatim>\<open>HTTPError\<close> is
  caught; the error of the pair is given by its status code. Any other exception leaves
  \<^verbatim>\<open>try_fetch\<close>.
\<close>

definition try_fetch ::
    "network \<Rightarrow> nat \<Rightarrow> string \<Rightarrow> string \<Rightarrow> exc + (json option \<times> int option)" where
  "try_fetch net n url key =
     (case fetch net n url key of
        Returned d \<Rightarrow> Inr (Some d, None)
      | RaisedHTTPError code \<Rightarrow> Inr (None, Some code)
      | Raised e \<Rightarrow> Inl e)"

text \<open>The environment: the result of \<^verbatim>\<open>os.getenv\<close> for each of the five names.\<close>

record env =
  SUPABASE_URL :: "string option"
  SUPABASE_ANON_KEY :: "string option"
  SUPABASE_SERVICE_ROLE_KEY :: "string option"
  RLS_TABLE :: "string option"
  RLS_SELECT :: "string option"

text \<open>What \<^verbatim>\<open>main\<close> prints, by the line that prints it (lines 36, 44, 50, 52, 61, 68, 71).\<close>

datatype message =
  Missing_env
  | FAIL_service_role int
  | OK_anon_blocked
  | WARN_anon int
  | FAIL_more_rows nat nat
  | FAIL_private_rows nat
  | OK_smoke nat nat

text \<open>Lines 57 and 58: \<^verbatim>\<open>len(data) if isinstance(data, list) else 0\<close>.\<close>

definition row_count :: "json option \<Rightarrow> nat" where
  "row_count data = (case data of Some (JArr rows) \<Rightarrow> length rows | _ \<Rightarrow> 0)"

text \<open>The rows of a result that is a list (\<^verbatim>\<open>anon_data\<close> where its length is not 0).\<close>

definition rows_of :: "json option \<Rightarrow> json list" where
  "rows_of data = (case data of Some (JArr rows) \<Rightarrow> rows | _ \<Rightarrow> [])"

text \<open>
  Line 65, second and third condition:
  \<^verbatim>\<open>isinstance(anon_data[0], dict) and "privacy_level" in anon_data[0]\<close>.
\<close>

definition has_privacy_level :: "json \<Rightarrow> bool" where
  "has_privacy_level r =
     (case r of JObj members \<Rightarrow> map_of members ''privacy_level'' \<noteq> None | _ \<Rightarrow> False)"

text \<open>
  Line 66: \<^verbatim>\<open>[r for r in anon_data if r.get("privacy_level") == "private"]\<close>, from left to
  right; \<^verbatim>\<open>r.get\<close> raises on a row that is not an object.
\<close>

fun privates :: "json list \<Rightarrow> exc + json list" where
  "privates [] = Inr []"
| "privates (JObj members # rs) =
     (case privates rs of
        Inl e \<Rightarrow> Inl e
      | Inr ps \<Rightarrow>
          Inr (if map_of members ''privacy_level'' = Some (JStr ''private'')
               then JObj members # ps else ps))"
| "privates (r # rs) = Inl AttributeError"

text \<open>
  Lines 34 to 72: \<^verbatim>\<open>main\<close>. The result is the exception that leaves \<^verbatim>\<open>main\<close>, or what
  was printed and the exit code returned. The request with the anonymous key is the first
  one (line 40), the one with the service-role key the second (line 41).
\<close>

definition endpoint :: "env \<Rightarrow> string" where
  "endpoint e =
     the (SUPABASE_URL e) @ ''/rest/v1/'' @ get_or (RLS_TABLE e) ''polls''
       @ ''?select='' @ get_or (RLS_SELECT e) ''id,privacy_level''"

definition main :: "env \<Rightarrow> network \<Rightarrow> exc + (message list \<times> int)" where
  "main e net =
     (if \<not> (truthy (SUPABASE_URL e) \<and> truthy (SUPABASE_ANON_KEY e)
             \<and> truthy (SUPABASE_SERVICE_ROLE_KEY e))
      then Inr ([Missing_env], 2)
      else
        case try_fetch net 0 (endpoint e) (the (SUPABASE_ANON_KEY e)) of
          Inl x \<Rightarrow> Inl x
        | Inr (anon_data, anon_err) \<Rightarrow>
        case try_fetch net 1 (endpoint e) (the (SUPABASE_SERVICE_ROLE_KEY e)) of
          Inl x \<Rightarrow> Inl x
        | Inr (sr_data, sr_err) \<Rightarrow>
        if sr_err \<noteq> None then Inr ([FAIL_service_role (the sr_err)], 1)
        else if anon_err \<noteq> None then
          (if the anon_err = 401 \<or> the anon_err = 403 then Inr ([OK_anon_blocked], 0)
           else Inr ([WARN_anon (the anon_err)], 0))
        else
          let anon_count = row_count anon_data; sr_count = row_count sr_data
          in if anon_count > sr_count then Inr ([FAIL_more_rows anon_count sr_count], 1)
             else
               case (if anon_count \<noteq> 0 \<and> has_privacy_level (hd (rows_of anon_data))
                     then privates (rows_of anon_data)
                     else Inr []) of
                 Inl x \<Rightarrow> Inl x
               | Inr ps \<Rightarrow>
                   if ps \<noteq> [] then Inr ([FAIL_private_rows (length ps)], 1)
                   else Inr ([OK_smoke anon_count sr_count], 0))"

text \<open>
  The configuration is present (line 35 is passed); the two requests of a run, by the
  credential they carry.
\<close>

definition configured :: "env \<Rightarrow> bool" where
  "configured e =
     (truthy (SUPABASE_URL e) \<and> truthy (SUPABASE_ANON_KEY e)
      \<and> truthy (SUPABASE_SERVICE_ROLE_KEY e))"

definition anon_request :: "env \<Rightarrow> network \<Rightarrow> outcome" where
  "anon_request e net = fetch net 0 (endpoint e) (the (SUPABASE_ANON_KEY e))"

definition service_role_request :: "env \<Rightarrow> network \<Rightarrow> outcome" where
  "service_role_request e net = fetch net 1 (endpoint e) (the (SUPABASE_SERVICE_ROLE_KEY e))"

text \<open>
  An environment, a network that answers by the key of the request, and a result of
  three rows of which the second is private.
\<close>

definition the_env :: env where
  "the_env =
     \<lparr>SUPABASE_URL = Some ''https://x.supabase.co'', SUPABASE_ANON_KEY = Some ''anon'',
      SUPABASE_SERVICE_ROLE_KEY = Some ''service'', RLS_TABLE = None, RLS_SELECT = None\<rparr>"

definition net_of :: "outcome \<Rightarrow> outcome \<Rightarrow> network" where
  "net_of anon sr = (\<lambda>n url key. if key = ''anon'' then anon else sr)"

text \<open>A row that is an object, and a row whose privacy\_level is "private".\<close>

definition is_private :: "json \<Rightarrow> bool" where
  "is_private r =
     (case r of JObj members \<Rightarrow> map_of members ''privacy_level'' = Some (JStr ''private'')
      | _ \<Rightarrow> False)"

definition is_object :: "json \<Rightarrow> bool" where
  "is_object r = (case r of JObj members \<Rightarrow> True | _ \<Rightarrow> False)"

definition three_rows :: json where
  "three_rows =
     JArr [JObj [(''id'', JInt 1), (''privacy_level'', JStr ''public'')],
           JObj [(''id'', JInt 2), (''privacy_level'', JStr ''private'')],
           JObj [(''id'', JInt 3), (''privacy_level'', JStr ''public'')]]"

section \<open>The library functions do what Python's do\<close>

lemma split_from_words:
  "list_all (\<lambda>c. \<not> py_isspace c) w \<Longrightarrow> list_all is_word (split_from w s)"
proof (induction w s rule: split_from.induct)
  case (1 w)
  then show ?case by (simp add: is_word_def)
next
  case (2 w c cs)
  show ?case
  proof (cases "py_isspace c")
    case True
    show ?thesis
    proof (cases "w = []")
      case True
      then show ?thesis
        using \<open>py_isspace c\<close> "2.IH"(1) by simp
    next
      case False
      then show ?thesis
        using \<open>py_isspace c\<close> "2.IH"(2) "2.prems" by (simp add: is_word_def)
    qed
  next
    case False
    then show ?thesis
      using "2.IH"(3) "2.prems" by simp
  qed
qed

lemma py_split_words: "list_all is_word (py_split s)"
  using split_from_words [of "[]" s] by (simp add: py_split_def)

lemma split_from_concat:
  "concat (split_from w s) = w @ filter (\<lambda>c. \<not> py_isspace c) s"
  by (induction w s rule: split_from.induct) simp_all

lemma py_split_concat: "concat (py_split s) = filter (\<lambda>c. \<not> py_isspace c) s"
  by (simp add: py_split_def split_from_concat)

text \<open>The scan and the join give the words and the spaced text, on every alphabet.\<close>

lemma words_of_Nil: "words_of isspace [] = []"
  by (simp add: words_of.simps)

lemma words_of_space: "isspace c \<Longrightarrow> words_of isspace (c # cs) = words_of isspace cs"
  by (simp add: words_of.simps [of isspace "c # cs"] words_of.simps [of isspace cs])

lemma words_of_letter:
  "\<not> isspace c \<Longrightarrow>
   words_of isspace (c # cs) =
     (c # takeWhile (\<lambda>c. \<not> isspace c) cs) # words_of isspace (dropWhile (\<lambda>c. \<not> isspace c) cs)"
  by (simp add: words_of.simps [of isspace "c # cs"])

lemma split_on_words:
  "split_on isspace w s =
     (if w = [] then words_of isspace s
      else (w @ takeWhile (\<lambda>c. \<not> isspace c) s)
             # words_of isspace (dropWhile (\<lambda>c. \<not> isspace c) s))"
proof (induction isspace w s rule: split_on.induct)
  case (1 isspace w)
  show ?case by (simp add: words_of_Nil)
next
  case (2 isspace w c cs)
  show ?case
  proof (cases "isspace c")
    case True
    show ?thesis
    proof (cases "w = []")
      case True
      then show ?thesis
        using \<open>isspace c\<close> "2.IH"(1) by (simp add: words_of_space)
    next
      case False
      then show ?thesis
        using \<open>isspace c\<close> "2.IH"(2) by (simp add: words_of_space)
    qed
  next
    case False
    then show ?thesis
      using "2.IH"(3) by (simp add: words_of_letter)
  qed
qed

lemma split_on_Nil_words: "split_on isspace [] s = words_of isspace s"
  by (simp add: split_on_words)

lemma join_on_spaced: "join_on [space] ws = spaced space ws"
proof (induction "[space]" ws rule: join_on.induct)
  case 1
  show ?case by (simp add: spaced_def)
next
  case (2 p)
  show ?case by (simp add: spaced_def)
next
  case (3 p q ps)
  then show ?case by (simp add: spaced_def)
qed

lemma title_of_normal: "title_of isspace space path raw = normal_title isspace space path raw"
  by (cases path; cases raw)
     (simp_all add: title_of_def normal_title_def get_or_def Let_def split_on_Nil_words
        join_on_spaced words_of_Nil spaced_def)

lemma split_from_split_on: "split_from w s = split_on py_isspace w s"
  by (induction w s rule: split_from.induct) simp_all

lemma py_join_join_on: "py_join sep ws = join_on sep ws"
  by (induction sep ws rule: py_join.induct) simp_all

lemma entry_title_of:
  "entry_title sp = title_of py_isspace (CHR '' '') (sp_titlePath sp) (sp_title sp)"
  by (simp add: entry_title_def spec_title_def title_of_def py_split_def split_from_split_on
      py_join_join_on Let_def)

lemma py_isspace_unicode: "py_isspace c = unicode_isspace (of_char c)"
proof -
  define i :: int where "i = of_char c"
  have n: "(of_char c :: nat) = nat i"
    by (simp add: i_def)
  have "i mod 256 = i"
    by (simp add: i_def)
  then have "0 \<le> i" and "i < 256"
    using pos_mod_sign [of 256 i] pos_mod_bound [of 256 i] by simp_all
  then show ?thesis
    unfolding py_isspace_def unicode_isspace_def Let_def n i_def [symmetric] by auto
qed

lemma split_on_are_words:
  "list_all (\<lambda>c. \<not> isspace c) w \<Longrightarrow>
   list_all (\<lambda>w. w \<noteq> [] \<and> list_all (\<lambda>c. \<not> isspace c) w) (split_on isspace w s)"
proof (induction isspace w s rule: split_on.induct)
  case (1 isspace w)
  then show ?case by simp
next
  case (2 isspace w c cs)
  show ?case
  proof (cases "isspace c")
    case True
    show ?thesis
    proof (cases "w = []")
      case True
      then show ?thesis
        using \<open>isspace c\<close> "2.IH"(1) by simp
    next
      case False
      then show ?thesis
        using \<open>isspace c\<close> "2.IH"(2) "2.prems" by simp
    qed
  next
    case False
    then show ?thesis
      using "2.IH"(3) "2.prems" by simp
  qed
qed

lemma split_on_concat:
  "concat (split_on isspace w s) = w @ filter (\<lambda>c. \<not> isspace c) s"
  by (induction isspace w s rule: split_on.induct) simp_all

lemma words_of_are_words:
  "list_all (\<lambda>w. w \<noteq> [] \<and> list_all (\<lambda>c. \<not> isspace c) w) (words_of isspace t)"
  using split_on_are_words [of isspace "[]" t] by (simp add: split_on_Nil_words)

lemma words_of_concat: "concat (words_of isspace t) = filter (\<lambda>c. \<not> isspace c) t"
  using split_on_concat [of isspace "[]" t] by (simp add: split_on_Nil_words)

lemma words_of_word_append:
  assumes "w \<noteq> []" and "list_all (\<lambda>c. \<not> isspace c) w" and "x = [] \<or> isspace (hd x)"
  shows "words_of isspace (w @ x) = w # words_of isspace x"
proof -
  obtain c cs where w: "w = c # cs"
    using assms(1) by (cases w) simp_all
  have c: "\<not> isspace c" and cs: "\<forall>a \<in> set cs. \<not> isspace a"
    using assms(2) by (simp_all add: w list_all_iff)
  have x: "takeWhile (\<lambda>c. \<not> isspace c) x = []" "dropWhile (\<lambda>c. \<not> isspace c) x = x"
    using assms(3) by (cases x; simp)+
  have "takeWhile (\<lambda>c. \<not> isspace c) (cs @ x) = cs"
    using cs by (simp add: takeWhile_append2 x)
  moreover have "dropWhile (\<lambda>c. \<not> isspace c) (cs @ x) = x"
    using cs by (simp add: dropWhile_append2 x)
  ultimately show ?thesis
    using c by (simp add: w words_of_letter)
qed

lemma words_of_spaced:
  assumes "isspace space"
    and "list_all (\<lambda>w. w \<noteq> [] \<and> list_all (\<lambda>c. \<not> isspace c) w) ws"
  shows "words_of isspace (spaced space ws) = ws"
  using assms(2)
proof (induction ws)
  case Nil
  show ?case by (simp add: spaced_def words_of_Nil)
next
  case (Cons w ws)
  have tail: "words_of isspace (concat (map (\<lambda>v. space # v) ws)) = ws"
  proof (cases ws)
    case Nil
    then show ?thesis by (simp add: words_of_Nil)
  next
    case (Cons v vs)
    then have "concat (map (\<lambda>v. space # v) ws) = space # spaced space ws"
      by (simp add: spaced_def)
    then show ?thesis
      using Cons.IH Cons.prems assms(1) by (simp add: words_of_space)
  qed
  have "concat (map (\<lambda>v. space # v) ws) = [] \<or> isspace (hd (concat (map (\<lambda>v. space # v) ws)))"
    using assms(1) by (cases ws) simp_all
  then have "words_of isspace (w @ concat (map (\<lambda>v. space # v) ws))
      = w # words_of isspace (concat (map (\<lambda>v. space # v) ws))"
    using Cons.prems by (intro words_of_word_append) simp_all
  then show ?case
    by (simp add: spaced_def tail)
qed

section \<open>The walk is a fold over the Result nodes\<close>

lemma fold_visit_result:
  "fold (visit_result sp) rs st = fold (\<lambda>(sp, r). visit_result sp r) (map (Pair sp) rs) st"
  by (induction rs arbitrary: st) simp_all

lemma visit_spec_fold:
  "visit_spec sp st = fold (\<lambda>(sp, r). visit_result sp r) (results_of_spec sp) st"
proof -
  have "fold (visit_test sp) ts st =
        fold (\<lambda>(sp, r). visit_result sp r) (map (Pair sp) (concat (map results_of_test ts))) st"
    for ts
  proof (induction ts arbitrary: st)
    case Nil
    show ?case by simp
  next
    case (Cons t ts)
    have "visit_test sp t st =
          fold (\<lambda>(sp, r). visit_result sp r) (map (Pair sp) (results_of_test t)) st"
      by (simp add: visit_test_def results_of_test_def get_or_def fold_visit_result
          split: option.split)
    then show ?case
      using Cons.IH by simp
  qed
  then show ?thesis
    by (simp add: visit_spec_def results_of_spec_def get_or_def split: option.split)
qed

lemma fold_visit_spec:
  "fold visit_spec sps st =
   fold (\<lambda>(sp, r). visit_result sp r) (concat (map results_of_spec sps)) st"
  by (induction sps arbitrary: st) (simp_all add: visit_spec_fold)

lemma walk_suites_fold:
  "walk_suites ss st =
   fold (\<lambda>(sp, r). visit_result sp r) (concat (map results_of_suite ss)) st"
proof (induction ss st rule: walk_suites.induct)
  case (1 st)
  show ?case by simp
next
  case (2 s rest st)
  obtain sps sus where s: "s = Suite sps sus"
    by (cases s)
  have own: "results_of_suite s =
      concat (map results_of_spec (get_or (su_specs s) [])) @
      concat (map results_of_suite (get_or (su_suites s) []))"
    by (simp add: s get_or_def split: option.split)
  show ?case
    using "2.IH" by (simp add: own fold_visit_spec)
qed

lemma summarize_fold:
  "summarize_playwright_json data =
   fold (\<lambda>(sp, r). visit_result sp r) (results_of_report data)
     \<lparr>total = 0, passed = 0, failed = 0, skipped = 0, specs = [], failures = []\<rparr>"
  by (simp add: summarize_playwright_json_def results_of_report_def walk_suites_fold get_or_def
      split: option.split)

lemma total_visit_result: "total (visit_result sp r st) = total st + 1"
  by (simp add: visit_result_def Let_def)

lemma total_fold:
  "total (fold (\<lambda>(sp, r). visit_result sp r) prs st) = total st + int (length prs)"
  by (induction prs arbitrary: st) (auto simp: total_visit_result)

section \<open>What one visit does, and what the fold adds up to\<close>

lemma py_split_Nil: "py_split [] = []"
  by (simp add: py_split_def)

lemma find_err_first: "find_err atts = first_error_body atts"
  by (induction atts) (auto simp: first_error_body_def names_error_def truthy_def split: option.splits)

lemma entry_title_rule: "entry_title sp = title_rule (sp_titlePath sp) (sp_title sp)"
  by (simp add: entry_title_of title_of_normal title_rule_def)

lemma py_or_unknown: "py_or (res_status r) ''unknown'' = recorded_status r"
  by (simp add: py_or_def truthy_def recorded_status_def split: option.split)

lemma in_bucket_iff:
  "in_bucket r \<longleftrightarrow>
     res_status r = Some ''passed'' \<or> res_status r = Some ''failed'' \<or>
     res_status r = Some ''skipped'' \<or> res_status r = Some ''timedOut'' \<or>
     res_status r = Some ''interrupted''"
  by (cases "res_status r") (auto simp: in_bucket_def bucket_statuses_def)

lemma visit_result_passed:
  "res_status r = Some ''passed'' \<Longrightarrow>
   visit_result sp r st =
     st\<lparr>total := total st + 1, passed := passed st + 1,
        specs := specs st @ [entry_of (sp, r)]\<rparr>"
  by (simp add: visit_result_def Let_def entry_of_def entry_title_rule recorded_status_def
      py_or_def truthy_def get_or_def)

lemma visit_result_failed:
  "res_status r = Some ''failed'' \<Longrightarrow>
   visit_result sp r st =
     st\<lparr>total := total st + 1, failed := failed st + 1,
        failures := failures st @ [failure_of (sp, r)],
        specs := specs st @ [entry_of (sp, r)]\<rparr>"
  by (simp add: visit_result_def Let_def entry_of_def failure_of_def entry_title_rule
      recorded_status_def py_or_def truthy_def get_or_def find_err_first)

lemma visit_result_skipped:
  "res_status r = Some ''skipped'' \<or> res_status r = Some ''timedOut'' \<or>
   res_status r = Some ''interrupted'' \<Longrightarrow>
   visit_result sp r st =
     st\<lparr>total := total st + 1, skipped := skipped st + 1,
        specs := specs st @ [entry_of (sp, r)]\<rparr>"
  by (auto simp add: visit_result_def Let_def entry_of_def entry_title_rule recorded_status_def
      py_or_def truthy_def get_or_def)

lemma visit_result_other:
  "\<not> in_bucket r \<Longrightarrow>
   visit_result sp r st =
     st\<lparr>total := total st + 1, specs := specs st @ [entry_of (sp, r)]\<rparr>"
  by (simp add: in_bucket_iff visit_result_def Let_def entry_of_def entry_title_rule
      py_or_unknown get_or_def)

lemma specs_visit_result: "specs (visit_result sp r st) = specs st @ [entry_of (sp, r)]"
  by (simp add: visit_result_def Let_def entry_of_def entry_title_rule py_or_unknown get_or_def)

lemma failures_visit_result:
  "failures (visit_result sp r st) =
   failures st @ (if is_failed (sp, r) then [failure_of (sp, r)] else [])"
  by (simp add: visit_result_def Let_def failure_of_def is_failed_def entry_title_rule
      get_or_def find_err_first)

lemma failed_visit_result:
  "failed (visit_result sp r st) = failed st + (if is_failed (sp, r) then 1 else 0)"
  by (simp add: visit_result_def Let_def is_failed_def)

lemma buckets_visit_result:
  "passed (visit_result sp r st) + failed (visit_result sp r st) + skipped (visit_result sp r st) =
   passed st + failed st + skipped st + (if in_bucket r then 1 else 0)"
  by (simp add: visit_result_def Let_def in_bucket_iff)

lemma specs_fold:
  "specs (fold (\<lambda>(sp, r). visit_result sp r) prs st) = specs st @ map entry_of prs"
  by (induction prs arbitrary: st) (auto simp: specs_visit_result)

lemma failures_fold:
  "failures (fold (\<lambda>(sp, r). visit_result sp r) prs st) =
   failures st @ map failure_of (filter is_failed prs)"
  by (induction prs arbitrary: st) (auto simp: failures_visit_result)

lemma failed_fold:
  "failed (fold (\<lambda>(sp, r). visit_result sp r) prs st) =
   failed st + int (length (filter is_failed prs))"
  by (induction prs arbitrary: st) (auto simp: failed_visit_result)

lemma buckets_fold:
  "passed (fold (\<lambda>(sp, r). visit_result sp r) prs st) +
   failed (fold (\<lambda>(sp, r). visit_result sp r) prs st) +
   skipped (fold (\<lambda>(sp, r). visit_result sp r) prs st) =
   passed st + failed st + skipped st + int (length (filter (\<lambda>pr. in_bucket (snd pr)) prs))"
proof (induction prs arbitrary: st)
  case Nil
  show ?case by simp
next
  case (Cons pr prs)
  obtain sp r where pr: "pr = (sp, r)"
    by (cases pr)
  show ?case
    using buckets_visit_result [of sp r st] by (simp add: pr Cons.IH)
qed

lemma length_filter_eq_iff: "length (filter P xs) = length xs \<longleftrightarrow> (\<forall>x \<in> set xs. P x)"
proof (induction xs)
  case Nil
  show ?case by simp
next
  case (Cons x xs)
  have "length (filter P xs) \<noteq> Suc (length xs)"
    using length_filter_le [of P xs] by linarith
  then show ?case
    using Cons.IH by simp
qed

lemma repo_test_summary:
  "summarize_playwright_json repo_test_report =
      \<lparr>total = 2, passed = 1, failed = 1, skipped = 0,
       specs = [SpecEntry ''e2e Spec A'' 1200 ''passed'', SpecEntry ''e2e Spec B'' 500 ''failed''],
       failures = [FailureEntry ''e2e Spec B'' 500 (Some ''boom'')]\<rparr>"
  by code_simp

lemma test_report_summary:
  "summarize_playwright_json test_report =
      \<lparr>total = 4, passed = 1, failed = 1, skipped = 1,
       specs = [SpecEntry ''e2e Spec A'' 1200 ''passed'', SpecEntry ''e2e Spec B'' 500 ''failed'',
                SpecEntry ''Spec C'' 0 ''timedOut'', SpecEntry ''Spec C'' 7 ''unknown''],
       failures = [FailureEntry ''e2e Spec B'' 500 (Some ''boom'')]\<rparr>"
  by code_simp

section \<open>The smoke test by cases\<close>

lemma main_configured:
  "configured e \<Longrightarrow>
   main e net =
     (case anon_request e net of
        Raised x \<Rightarrow> Inl x
      | RaisedHTTPError c \<Rightarrow>
          (case service_role_request e net of
             Raised x \<Rightarrow> Inl x
           | RaisedHTTPError c' \<Rightarrow> Inr ([FAIL_service_role c'], 1)
           | Returned d' \<Rightarrow>
               if c = 401 \<or> c = 403 then Inr ([OK_anon_blocked], 0) else Inr ([WARN_anon c], 0))
      | Returned d \<Rightarrow>
          (case service_role_request e net of
             Raised x \<Rightarrow> Inl x
           | RaisedHTTPError c' \<Rightarrow> Inr ([FAIL_service_role c'], 1)
           | Returned d' \<Rightarrow>
               if row_count (Some d) > row_count (Some d')
               then Inr ([FAIL_more_rows (row_count (Some d)) (row_count (Some d'))], 1)
               else
                 case (if row_count (Some d) \<noteq> 0 \<and> has_privacy_level (hd (rows_of (Some d)))
                       then privates (rows_of (Some d)) else Inr []) of
                   Inl x \<Rightarrow> Inl x
                 | Inr ps \<Rightarrow>
                     if ps \<noteq> [] then Inr ([FAIL_private_rows (length ps)], 1)
                     else Inr ([OK_smoke (row_count (Some d)) (row_count (Some d'))], 0)))"
  by (simp add: main_def configured_def try_fetch_def anon_request_def service_role_request_def
      Let_def split: outcome.split)

lemma privates_objects:
  "list_all is_object rows \<Longrightarrow> privates rows = Inr (filter is_private rows)"
proof (induction rows)
  case Nil
  show ?case by simp
next
  case (Cons r rows)
  then obtain members where r: "r = JObj members"
    by (cases r) (simp_all add: is_object_def)
  from Cons show ?case
    by (simp add: r is_private_def)
qed

section \<open>Division by 1000 and three decimal places\<close>

lemma pow2_powi: "pow2 e = 2 powi e"
  by (simp add: pow2_def power_int_def inverse_eq_divide power_one_over)

lemma pow2_pos: "0 < pow2 e"
  by (simp add: pow2_def)

lemma pow2_less_iff: "pow2 a < pow2 b \<longleftrightarrow> a < b"
proof
  assume "pow2 a < pow2 b"
  show "a < b"
  proof (rule ccontr)
    assume "\<not> a < b"
    then have "b \<le> a" by simp
    then have "pow2 b \<le> pow2 a"
      unfolding pow2_powi by (intro power_int_increasing) simp_all
    with \<open>pow2 a < pow2 b\<close> show False by simp
  qed
next
  assume "a < b"
  then show "pow2 a < pow2 b"
    unfolding pow2_powi by (intro power_int_strict_increasing) simp_all
qed

lemma pow2_le_iff: "pow2 a \<le> pow2 b \<longleftrightarrow> a \<le> b"
  using pow2_less_iff [of b a] by (simp add: not_less [symmetric])

lemma pow2_diff: "pow2 (a - b) = pow2 a / pow2 b"
  unfolding pow2_powi by (simp add: power_int_diff)

lemma pow2_nat: "0 \<le> e \<Longrightarrow> pow2 e = 2 ^ nat e"
  by (simp add: pow2_def)

lemma round_half_even_error: "\<bar>of_int (round_half_even y) - y\<bar> \<le> 1 / 2"
proof -
  have "of_int \<lfloor>y\<rfloor> \<le> y" and "y < of_int \<lfloor>y\<rfloor> + 1"
    by linarith+
  then show ?thesis
    by (auto simp: round_half_even_def Let_def)
qed

lemma round_half_even_nearest:
  assumes "\<bar>x - of_int n\<bar> < 1 / 2"
  shows "round_half_even x = n"
proof -
  have e: "\<bar>of_int (round_half_even x) - x\<bar> \<le> 1 / 2"
    by (rule round_half_even_error)
  have "\<bar>(of_int (round_half_even x) :: rat) - of_int n\<bar> < 1"
    using assms e by linarith
  then have "\<bar>(of_int (round_half_even x - n) :: rat)\<bar> < 1"
    by simp
  then have "\<bar>round_half_even x - n\<bar> < 1"
    by (metis of_int_abs of_int_less_1_iff)
  then show ?thesis
    by simp
qed

lemma round_half_even_nonneg: "0 \<le> y \<Longrightarrow> 0 \<le> round_half_even y"
  by (auto simp: round_half_even_def Let_def)

lemma bitlen_1000: "bitlen 1000 = 10"
  using bitlen_twopow_add_eq [of 488 9] by simp

lemma exponent_lower:
  assumes "0 < d"
  shows "pow2 (bitlen d - bitlen 1000 - 1) \<le> of_int d / 1000"
proof -
  have b1: "1 \<le> bitlen d"
    using assms bitlen_eq_zero_iff [of d] bitlen_nonneg [of d] by linarith
  have "2 ^ nat (bitlen d - 1) \<le> d"
    using bitlen_bounds [OF assms] by simp
  then have "(of_int (2 ^ nat (bitlen d - 1)) :: rat) \<le> of_int d"
    by (simp only: of_int_le_iff)
  then have le: "pow2 (bitlen d - 1) \<le> of_int d"
    using b1 by (simp add: pow2_nat)
  have "pow2 (bitlen d - bitlen 1000 - 1) = pow2 (bitlen d - 1) / pow2 10"
    by (simp add: bitlen_1000 pow2_diff [symmetric])
  also have "\<dots> = pow2 (bitlen d - 1) / 1024"
    by (simp add: pow2_def)
  also have "\<dots> \<le> pow2 (bitlen d - 1) / 1000"
    using pow2_pos [of "bitlen d - 1"] by (simp add: field_simps)
  also have "\<dots> \<le> of_int d / 1000"
    using le by simp
  finally show ?thesis .
qed

lemma pow2_43: "pow2 43 = 8796093022208"
  by (simp add: pow2_def)

lemma pow2_m10: "pow2 (- 10) = 1 / 1024"
  by (simp add: pow2_def)

lemma py_truediv_1000:
  assumes pos: "0 < d" and bound: "d < 8796093022208000"
  shows "\<exists>r. py_truediv d 1000 = Inr r \<and> 0 \<le> r \<and> \<bar>r * 1000 - of_int d\<bar> < 1 / 2"
proof -
  define q :: rat where "q = of_int d / of_int 1000"
  define k where "k = bitlen \<bar>d\<bar> - bitlen \<bar>1000\<bar>"
  define e where "e = (if \<bar>q\<bar> < pow2 k then k - 1 else k)"
  define u where "u = pow2 (max (e - 52) (- 1074))"
  define r where "r = of_int (round_half_even (q / u)) * u"
  have unfolded: "py_truediv d 1000 = (if pow2 1024 \<le> \<bar>r\<bar> then Inl OverflowError else Inr r)"
    using pos unfolding r_def u_def e_def k_def q_def by (simp add: py_truediv_def Let_def)
  have q: "q = of_int d / 1000"
    by (simp add: q_def)
  have qpos: "0 < q"
    using pos by (simp add: q)
  have k: "k = bitlen d - bitlen 1000"
    using pos by (simp add: k_def)
  have b1: "1 \<le> bitlen d"
    using pos bitlen_eq_zero_iff [of d] bitlen_nonneg [of d] by linarith
  have e_low: "- 10 \<le> e"
    using b1 by (simp add: e_def k bitlen_1000)
  have e_le_q: "pow2 e \<le> q"
  proof (cases "\<bar>q\<bar> < pow2 k")
    case True
    then have "e = bitlen d - bitlen 1000 - 1"
      by (simp add: e_def k)
    then show ?thesis
      using exponent_lower [OF pos] by (simp add: q)
  next
    case False
    then show ?thesis
      using qpos by (simp add: e_def)
  qed
  have "of_int d < (8796093022208000 :: rat)"
    using bound by (metis of_int_less_iff of_int_numeral)
  then have "q < pow2 43"
    by (simp add: q pow2_43)
  with e_le_q have "pow2 e < pow2 43"
    by simp
  then have e_up: "e \<le> 42"
    by (simp add: pow2_less_iff)
  have u: "u = pow2 (e - 52)"
    using e_low by (simp add: u_def max_def)
  have upos: "0 < u"
    by (simp add: u pow2_pos)
  have "pow2 (e - 52) \<le> pow2 (- 10)"
    using e_up by (simp add: pow2_le_iff)
  then have u_le: "u \<le> 1 / 1024"
    by (simp add: u pow2_m10)
  have "\<bar>of_int (round_half_even (q / u)) - q / u\<bar> \<le> 1 / 2"
    by (rule round_half_even_error)
  then have "\<bar>of_int (round_half_even (q / u)) - q / u\<bar> * u \<le> 1 / 2 * u"
    using upos by (simp add: mult_right_mono)
  moreover have "\<bar>of_int (round_half_even (q / u)) - q / u\<bar> * u = \<bar>r - q\<bar>"
  proof -
    have "(of_int (round_half_even (q / u)) - q / u) * u = r - q"
      using upos by (simp add: r_def left_diff_distrib)
    then have "\<bar>r - q\<bar> = \<bar>of_int (round_half_even (q / u)) - q / u\<bar> * \<bar>u\<bar>"
      by (simp only: abs_mult [symmetric])
    then show ?thesis
      using upos by simp
  qed
  ultimately have err: "\<bar>r - q\<bar> \<le> u / 2"
    by simp
  have rnn: "0 \<le> r"
    using qpos upos by (simp add: r_def round_half_even_nonneg)
  have "r \<le> q + 1"
    using err u_le by linarith
  then have "r < 8796093022209"
    using \<open>q < pow2 43\<close> by (simp add: pow2_43)
  moreover have "(8796093022209 :: rat) \<le> pow2 44"
    by (simp add: pow2_def)
  moreover have "pow2 44 \<le> pow2 1024"
    by (simp add: pow2_le_iff)
  ultimately have no_overflow: "\<not> pow2 1024 \<le> \<bar>r\<bar>"
    using rnn by linarith
  have "r * 1000 - of_int d = (r - q) * 1000"
    by (simp add: q algebra_simps)
  then have "\<bar>r * 1000 - of_int d\<bar> = \<bar>r - q\<bar> * \<bar>1000\<bar>"
    by (simp only: abs_mult)
  then have "\<bar>r * 1000 - of_int d\<bar> = \<bar>r - q\<bar> * 1000"
    by simp
  moreover have "\<bar>r - q\<bar> \<le> 1 / 2048"
    using err u_le by linarith
  ultimately have close: "\<bar>r * 1000 - of_int d\<bar> < 1 / 2"
    by simp
  show ?thesis
    using unfolded no_overflow rnn close by auto
qed

lemma time_attr_exact:
  assumes "0 \<le> d" and "d < 8796093022208000"
  shows "time_attr d = Inr (three_decimals d)"
proof (cases "d = 0")
  case True
  then show ?thesis
    by (simp add: time_attr_def py_truediv_def py_format_3f_def round_half_even_def
        three_decimals_def)
next
  case False
  with assms have "0 < d" by simp
  then obtain r where r: "py_truediv d 1000 = Inr r" "0 \<le> r"
      "\<bar>r * 1000 - of_int d\<bar> < 1 / 2"
    using py_truediv_1000 [OF _ assms(2)] by blast
  have "round_half_even (\<bar>r\<bar> * 1000) = d"
    using r(2,3) by (intro round_half_even_nearest) simp
  then show ?thesis
    using r(1,2) by (simp add: time_attr_def py_format_3f_def three_decimals_def)
qed

lemma find_msg_default:
  "find_msg fails title msg =
     (case List.find (\<lambda>f. fe_title f = title) fails of
        None \<Rightarrow> msg
      | Some f \<Rightarrow> (case fe_error f of None \<Rightarrow> msg | Some t \<Rightarrow> if t = [] then msg else t))"
  by (induction fails) (simp_all add: py_or_def truthy_def split: option.split)

lemma is_digit_digit: "0 \<le> k \<Longrightarrow> k < 10 \<Longrightarrow> is_digit (digit k)"
proof -
  assume "0 \<le> k" and "k < 10"
  then have "k = 0 \<or> k = 1 \<or> k = 2 \<or> k = 3 \<or> k = 4 \<or> k = 5 \<or> k = 6 \<or> k = 7 \<or> k = 8 \<or> k = 9"
    by arith
  then show ?thesis
    by (elim disjE) (simp_all add: is_digit_def digit_def)
qed

lemma digits_of_digits: "0 \<le> n \<Longrightarrow> digits_of n \<noteq> [] \<and> list_all is_digit (digits_of n)"
proof (induction n rule: digits_of.induct)
  case (1 n)
  show ?case
  proof (cases "n < 10")
    case True
    with 1 show ?thesis
      by (simp add: digits_of.simps [of n] is_digit_digit)
  next
    case False
    then have "0 \<le> n div 10"
      by simp
    with 1 False show ?thesis
      by (simp add: digits_of.simps [of n] is_digit_digit)
  qed
qed

lemma py_format_3f_places: "three_places (py_format_3f x)"
proof -
  define n where "n = round_half_even (\<bar>x\<bar> * 1000)"
  have n: "0 \<le> n"
    by (simp add: n_def round_half_even_nonneg)
  then have w: "digits_of (n div 1000) \<noteq> []" "list_all is_digit (digits_of (n div 1000))"
    using digits_of_digits [of "n div 1000"] by (simp_all add: pos_imp_zdiv_nonneg_iff)
  have f: "list_all is_digit [digit (n div 100 mod 10), digit (n div 10 mod 10), digit (n mod 10)]"
    by (simp add: is_digit_digit)
  have "py_format_3f x = (if x < 0 then ''-'' else []) @ digits_of (n div 1000) @ ''.''
           @ [digit (n div 100 mod 10), digit (n div 10 mod 10), digit (n mod 10)]"
    by (simp add: py_format_3f_def n_def Let_def)
  then show ?thesis
    unfolding three_places_def using w f
    by (intro exI [of _ "if x < 0 then ''-'' else []"] exI [of _ "digits_of (n div 1000)"]
          exI [of _ "[digit (n div 100 mod 10), digit (n div 10 mod 10), digit (n mod 10)]"])
       simp
qed

lemma py_truediv_1000_cases:
  "py_truediv d 1000 = Inl OverflowError \<or> (\<exists>v. py_truediv d 1000 = Inr v)"
  by (simp add: py_truediv_def Let_def)

lemma time_attr_no_overflow:
  "\<not> overflows d \<Longrightarrow> \<exists>v. py_truediv d 1000 = Inr v \<and> time_attr d = Inr (py_format_3f v)"
  using py_truediv_1000_cases [of d] by (auto simp: overflows_def time_attr_def)

lemma seconds_text_no_overflow: "\<not> overflows d \<Longrightarrow> time_attr d = Inr (seconds_text d)"
  using time_attr_no_overflow [of d] by (auto simp: seconds_text_def)

lemma seconds_text_places: "\<not> overflows d \<Longrightarrow> three_places (seconds_text d)"
  using time_attr_no_overflow [of d] by (auto simp: seconds_text_def py_format_3f_places)

lemma seconds_text_exact:
  assumes "0 \<le> d" and "d < 8796093022208000"
  shows "\<not> overflows d \<and> seconds_text d = three_decimals d"
  using time_attr_exact [OF assms] by (simp add: overflows_def seconds_text_def time_attr_def
      split: sum.splits)

lemma testcase_no_overflow:
  "\<not> overflows (se_duration_ms spec) \<Longrightarrow> testcase fails spec = Inr (junit_child fails spec)"
  by (simp add: testcase_def junit_child_def seconds_text_no_overflow
      find_msg_default failure_message_def Let_def)

lemma testcases_no_overflow:
  "list_all (\<lambda>spec. \<not> overflows (se_duration_ms spec)) sps \<Longrightarrow>
   testcases fails sps = Inr (map (junit_child fails) sps)"
  by (induction sps) (simp_all add: testcase_no_overflow)

section \<open>The claims\<close>

text \<open>
  C1. For every well-formed result tree, the summary that summarize\_playwright\_json
  produces has total equal to the number of Result nodes of the tree, however deeply the
  Suite nodes are nested.
\<close>

theorem total_counts_results:
  "total (summarize_playwright_json data) = int (length (results_of_report data))"
  by (simp add: summarize_fold total_fold)

text \<open>
  C2. For every well-formed result tree the summary has
  passed + failed + skipped \<le> total, and the two are equal if and only if the status of
  every result is one of passed, failed, skipped, timedOut, interrupted.
\<close>

theorem buckets_le_total:
  "passed (summarize_playwright_json data) + failed (summarize_playwright_json data)
     + skipped (summarize_playwright_json data) \<le> total (summarize_playwright_json data)
   \<and> (passed (summarize_playwright_json data) + failed (summarize_playwright_json data)
        + skipped (summarize_playwright_json data) = total (summarize_playwright_json data)
      \<longleftrightarrow> (\<forall>(sp, r) \<in> set (results_of_report data).
             res_status r = Some ''passed'' \<or> res_status r = Some ''failed'' \<or>
             res_status r = Some ''skipped'' \<or> res_status r = Some ''timedOut'' \<or>
             res_status r = Some ''interrupted''))"
proof -
  let ?rs = "results_of_report data"
  let ?P = "\<lambda>pr :: spec \<times> result. in_bucket (snd pr)"
  have b: "passed (summarize_playwright_json data) + failed (summarize_playwright_json data)
     + skipped (summarize_playwright_json data) = int (length (filter ?P ?rs))"
    using buckets_fold [of ?rs] by (simp add: summarize_fold)
  have t: "total (summarize_playwright_json data) = int (length ?rs)"
    by (simp add: summarize_fold total_fold)
  have le: "length (filter ?P ?rs) \<le> length ?rs"
    by (rule length_filter_le)
  have eq: "length (filter ?P ?rs) = length ?rs \<longleftrightarrow> (\<forall>pr \<in> set ?rs. ?P pr)"
    by (rule length_filter_eq_iff)
  have "(\<forall>pr \<in> set ?rs. ?P pr) \<longleftrightarrow> (\<forall>(sp, r) \<in> set ?rs.
             res_status r = Some ''passed'' \<or> res_status r = Some ''failed'' \<or>
             res_status r = Some ''skipped'' \<or> res_status r = Some ''timedOut'' \<or>
             res_status r = Some ''interrupted'')"
    by (auto simp: in_bucket_iff)
  with eq le show ?thesis
    unfolding b t by simp
qed

text \<open>
  In the tree of the repository's test every status is one of the five: the three
  buckets add up to 2, which is the total. The larger tree has a result with no status:
  the buckets add up to 3, the total is 4.
\<close>

theorem buckets_le_total_witness:
  "passed (summarize_playwright_json repo_test_report)
     + failed (summarize_playwright_json repo_test_report)
     + skipped (summarize_playwright_json repo_test_report) = 2
   \<and> total (summarize_playwright_json repo_test_report) = 2
   \<and> map (res_status \<circ> snd) (results_of_report repo_test_report)
       = [Some ''passed'', Some ''failed'']
   \<and> passed (summarize_playwright_json test_report) + failed (summarize_playwright_json test_report)
     + skipped (summarize_playwright_json test_report) = 3
   \<and> total (summarize_playwright_json test_report) = 4
   \<and> map (res_status \<circ> snd) (results_of_report test_report)
       = [Some ''passed'', Some ''failed'', Some ''timedOut'', None]"
proof -
  have r: "map (res_status \<circ> snd) (results_of_report repo_test_report)
       = [Some ''passed'', Some ''failed'']"
    "map (res_status \<circ> snd) (results_of_report test_report)
       = [Some ''passed'', Some ''failed'', Some ''timedOut'', None]"
    by code_simp+
  show ?thesis
    using buckets_le_total [of repo_test_report] buckets_le_total [of test_report]
    by (simp add: repo_test_summary test_report_summary r)
qed

text \<open>
  C3, as stated: a result whose status is absent or is any value outside the five is
  recorded in specs with the status "unknown". The code records "unknown" only for a
  status that is absent or empty (\<^verbatim>\<open>status or "unknown"\<close>); any other value is recorded
  as it is. The tree with one result of status "flaky" gives the record with status
  "flaky".
\<close>

theorem unknown_status_counterexample:
  "map (res_status \<circ> snd) (results_of_report flaky_report) = [Some ''flaky'']
   \<and> ''flaky'' \<notin> bucket_statuses
   \<and> specs (summarize_playwright_json flaky_report) = [SpecEntry ''Spec A'' 10 ''flaky'']
   \<and> se_status (hd (specs (summarize_playwright_json flaky_report))) \<noteq> ''unknown''"
  by (simp add: flaky_report_def summarize_playwright_json_def get_or_def visit_spec_def
      visit_test_def visit_result_def entry_title_def spec_title_def py_split_def
      py_isspace_def py_or_def truthy_def results_of_report_def results_of_spec_def
      results_of_test_def bucket_statuses_def)

text \<open>
  C3, amended. The summary is the fold of \<open>visit_result\<close> over the Result nodes, and for
  a result whose status is absent or is any value outside the five, \<open>visit_result\<close>
  adds one to total, leaves passed, failed, skipped and failures as they are, and appends
  one record to specs, whose status is "unknown" when the result's status is absent or
  the empty string, and the result's own status otherwise.
\<close>

theorem other_status_total_only:
  assumes "res_status r \<noteq> Some ''passed''" and "res_status r \<noteq> Some ''failed''"
    and "res_status r \<noteq> Some ''skipped''" and "res_status r \<noteq> Some ''timedOut''"
    and "res_status r \<noteq> Some ''interrupted''"
  shows "visit_result sp r st =
           st\<lparr>total := total st + 1,
              specs := specs st @
                [SpecEntry (entry_title sp) (get_or (res_duration r) 0)
                   (if res_status r = None \<or> res_status r = Some [] then ''unknown''
                    else the (res_status r))]\<rparr>
         \<and> summarize_playwright_json data =
           fold (\<lambda>(sp, r). visit_result sp r) (results_of_report data)
             \<lparr>total = 0, passed = 0, failed = 0, skipped = 0, specs = [], failures = []\<rparr>"
proof
  have nb: "\<not> in_bucket r"
    using assms by (simp add: in_bucket_iff)
  have "entry_of (sp, r) = SpecEntry (entry_title sp) (get_or (res_duration r) 0)
                   (if res_status r = None \<or> res_status r = Some [] then ''unknown''
                    else the (res_status r))"
    by (cases "res_status r")
       (simp_all add: entry_of_def entry_title_rule get_or_def recorded_status_def)
  then show "visit_result sp r st =
           st\<lparr>total := total st + 1,
              specs := specs st @
                [SpecEntry (entry_title sp) (get_or (res_duration r) 0)
                   (if res_status r = None \<or> res_status r = Some [] then ''unknown''
                    else the (res_status r))]\<rparr>"
    using visit_result_other [OF nb, of sp st] by simp
  show "summarize_playwright_json data =
           fold (\<lambda>(sp, r). visit_result sp r) (results_of_report data)
             \<lparr>total = 0, passed = 0, failed = 0, skipped = 0, specs = [], failures = []\<rparr>"
    by (rule summarize_fold)
qed

theorem other_status_total_only_witness:
  "visit_result (Spec (Some ''Spec A'') None None) (Result None (Some 7) None)
     \<lparr>total = 2, passed = 1, failed = 1, skipped = 0, specs = [], failures = []\<rparr>
   = \<lparr>total = 3, passed = 1, failed = 1, skipped = 0,
      specs = [SpecEntry ''Spec A'' 7 ''unknown''], failures = []\<rparr>
   \<and> visit_result (Spec (Some ''Spec A'') None None) (Result (Some ''flaky'') None None)
     \<lparr>total = 2, passed = 1, failed = 1, skipped = 0, specs = [], failures = []\<rparr>
   = \<lparr>total = 3, passed = 1, failed = 1, skipped = 0,
      specs = [SpecEntry ''Spec A'' 0 ''flaky''], failures = []\<rparr>"
proof -
  have t: "entry_title (Spec (Some ''Spec A'') None None) = ''Spec A''"
    by code_simp
  show ?thesis
    using other_status_total_only [of "Result None (Some 7) None"
        "Spec (Some ''Spec A'') None None"
        "\<lparr>total = 2, passed = 1, failed = 1, skipped = 0, specs = [], failures = []\<rparr>"]
      other_status_total_only [of "Result (Some ''flaky'') None None"
        "Spec (Some ''Spec A'') None None"
        "\<lparr>total = 2, passed = 1, failed = 1, skipped = 0, specs = [], failures = []\<rparr>"]
    by (simp add: t get_or_def)
qed

text \<open>
  C4. For every result with status "failed" the summary gets one failure record, whose
  error text is the body of the first attachment named "error" that has a non-empty
  body, and is absent when there is no such attachment. The failure records are those of
  the failed results, in document order.
\<close>

theorem failed_result_error_text:
  "failures (summarize_playwright_json data) =
     map (\<lambda>(sp, r). FailureEntry (entry_title sp) (get_or (res_duration r) 0)
                      (first_error_body (get_or (res_attachments r) [])))
       (filter (\<lambda>(sp, r). res_status r = Some ''failed'') (results_of_report data))
   \<and> find_err atts = first_error_body atts
   \<and> (first_error_body atts = None \<longleftrightarrow> \<not> (\<exists>a \<in> set atts. names_error a))"
proof -
  have f: "failure_of = (\<lambda>(sp, r). FailureEntry (entry_title sp) (get_or (res_duration r) 0)
                      (first_error_body (get_or (res_attachments r) [])))"
    by (auto simp: failure_of_def entry_title_rule get_or_def fun_eq_iff)
  have p: "is_failed = (\<lambda>(sp, r). res_status r = Some ''failed'')"
    by (auto simp: is_failed_def fun_eq_iff)
  have n: "first_error_body atts = None \<longleftrightarrow> \<not> (\<exists>a \<in> set atts. names_error a)"
    by (induction atts) (auto simp: first_error_body_def names_error_def split: option.splits)
  show ?thesis
    using n by (simp add: summarize_fold failures_fold f p find_err_first)
qed

text \<open>
  C5. For every spec node the title that is recorded is the path segments joined by
  spaces when a title path is present, else the raw title split on white space and
  rejoined with spaces; it is the raw title when both are absent or the result is the
  empty string. Every specs record and every failures record carries that title.

  The rule is \<open>normal_title\<close>, which is written with the words of a text and not with
  the scan of \<^verbatim>\<open>str.split\<close>. The code meets it on every alphabet and for every set of
  white space characters, so also for Unicode code points with the white space of
  \<^verbatim>\<open>str.isspace\<close>. The words of a text are not empty and hold no white space, together
  they are the characters of the text that are not white space, and they are the words of
  the rejoined text again.
\<close>

theorem title_resolution:
  "entry_title sp = title_rule (sp_titlePath sp) (sp_title sp)
   \<and> map se_title (specs (summarize_playwright_json data))
       = map (\<lambda>(sp, r). title_rule (sp_titlePath sp) (sp_title sp)) (results_of_report data)
   \<and> map fe_title (failures (summarize_playwright_json data))
       = map (\<lambda>(sp, r). title_rule (sp_titlePath sp) (sp_title sp))
           (filter (\<lambda>(sp, r). res_status r = Some ''failed'') (results_of_report data))
   \<and> entry_title sp = title_of py_isspace (CHR '' '') (sp_titlePath sp) (sp_title sp)
   \<and> title_of isspace space path raw = normal_title isspace space path raw
   \<and> list_all (\<lambda>w. w \<noteq> [] \<and> list_all (\<lambda>c. \<not> isspace c) w) (words_of isspace t)
   \<and> concat (words_of isspace t) = filter (\<lambda>c. \<not> isspace c) t
   \<and> (isspace space \<longrightarrow>
        words_of isspace (spaced space (words_of isspace t)) = words_of isspace t)"
proof -
  have p: "is_failed = (\<lambda>(sp, r). res_status r = Some ''failed'')"
    by (auto simp: is_failed_def fun_eq_iff)
  have e: "se_title \<circ> entry_of = (\<lambda>(sp, r). title_rule (sp_titlePath sp) (sp_title sp))"
    by (auto simp: entry_of_def fun_eq_iff)
  have f: "fe_title \<circ> failure_of = (\<lambda>(sp, r). title_rule (sp_titlePath sp) (sp_title sp))"
    by (auto simp: failure_of_def fun_eq_iff)
  have "map se_title (specs (summarize_playwright_json data))
       = map (\<lambda>(sp, r). title_rule (sp_titlePath sp) (sp_title sp)) (results_of_report data)"
    by (simp add: summarize_fold specs_fold e)
  moreover have "map fe_title (failures (summarize_playwright_json data))
       = map (\<lambda>(sp, r). title_rule (sp_titlePath sp) (sp_title sp))
           (filter (\<lambda>(sp, r). res_status r = Some ''failed'') (results_of_report data))"
    by (simp add: summarize_fold failures_fold p f)
  moreover have "isspace space \<longrightarrow>
        words_of isspace (spaced space (words_of isspace t)) = words_of isspace t"
    using words_of_spaced [OF _ words_of_are_words, of isspace space t] by blast
  ultimately show ?thesis
    using entry_title_rule [of sp] entry_title_of [of sp]
      title_of_normal [of isspace space path raw]
      words_of_are_words [of isspace t] words_of_concat [of isspace t]
    by blast
qed

text \<open>
  Two spaces between two words become one; white space in front and behind goes; a tab
  and a line feed are white space; a path wins over the raw title; an empty path and a
  raw title of white space only give the raw title unchanged; with no path and no title
  the title is empty. On code points, the ideographic space (12288) and the em space
  (8195) are white space.
\<close>

theorem title_resolution_witness:
  "entry_title (Spec (Some ''a  b'') None None) = ''a b''
   \<and> entry_title (Spec (Some '' Spec  C '') None None) = ''Spec C''
   \<and> entry_title (Spec (Some [CHR ''a'', CHR 0x09, CHR 0x0A, CHR ''b'']) None None) = ''a b''
   \<and> entry_title (Spec (Some ''Spec A'') (Some [''e2e'', ''Spec A'']) None) = ''e2e Spec A''
   \<and> entry_title (Spec (Some ''raw  title'') (Some []) None) = ''raw  title''
   \<and> entry_title (Spec (Some ''  '') None None) = ''  ''
   \<and> entry_title (Spec None None None) = []
   \<and> title_of unicode_isspace 32 None (Some [97, 12288, 8195, 98]) = [97, 32, 98]
   \<and> words_of py_isspace (spaced (CHR '' '') (words_of py_isspace '' Spec  C ''))
       = [''Spec'', ''C'']
   \<and> map se_title (specs (summarize_playwright_json test_report))
       = [''e2e Spec A'', ''e2e Spec B'', ''Spec C'', ''Spec C'']"
proof -
  have r: "title_rule None (Some ''a  b'') = ''a b''"
    "title_rule None (Some '' Spec  C '') = ''Spec C''"
    "title_rule None (Some [CHR ''a'', CHR 0x09, CHR 0x0A, CHR ''b'']) = ''a b''"
    "title_rule (Some [''e2e'', ''Spec A'']) (Some ''Spec A'') = ''e2e Spec A''"
    "title_rule (Some []) (Some ''raw  title'') = ''raw  title''"
    "title_rule None (Some ''  '') = ''  ''"
    "title_rule None None = []"
    by code_simp+
  have u: "normal_title unicode_isspace 32 None (Some [97, 12288, 8195, 98]) = [97, 32, 98]"
    by code_simp
  have w: "words_of py_isspace '' Spec  C '' = [''Spec'', ''C'']"
    by code_simp
  have sp: "py_isspace (CHR '' '')"
    by code_simp
  have m: "map (\<lambda>(sp, r). title_rule (sp_titlePath sp) (sp_title sp))
             (results_of_report test_report)
           = [''e2e Spec A'', ''e2e Spec B'', ''Spec C'', ''Spec C'']"
    by code_simp
  note t = title_resolution [where isspace = py_isspace and space = "CHR '' ''"
      and t = "'' Spec  C ''" and data = test_report and path = None and raw = None]
  have "entry_title (Spec (Some ''a  b'') None None) = ''a b''"
    using t [of "Spec (Some ''a  b'') None None"] by (simp add: r)
  moreover have "entry_title (Spec (Some '' Spec  C '') None None) = ''Spec C''"
    using t [of "Spec (Some '' Spec  C '') None None"] by (simp add: r)
  moreover have
    "entry_title (Spec (Some [CHR ''a'', CHR 0x09, CHR 0x0A, CHR ''b'']) None None) = ''a b''"
    using t [of "Spec (Some [CHR ''a'', CHR 0x09, CHR 0x0A, CHR ''b'']) None None"]
    by (simp add: r)
  moreover have
    "entry_title (Spec (Some ''Spec A'') (Some [''e2e'', ''Spec A'']) None) = ''e2e Spec A''"
    using t [of "Spec (Some ''Spec A'') (Some [''e2e'', ''Spec A'']) None"] by (simp add: r)
  moreover have "entry_title (Spec (Some ''raw  title'') (Some []) None) = ''raw  title''"
    using t [of "Spec (Some ''raw  title'') (Some []) None"] by (simp add: r)
  moreover have "entry_title (Spec (Some ''  '') None None) = ''  ''"
    using t [of "Spec (Some ''  '') None None"] by (simp add: r)
  moreover have "entry_title (Spec None None None) = []"
    using t [of "Spec None None None"] by (simp add: r)
  moreover have "title_of unicode_isspace 32 None (Some [97, 12288, 8195, 98]) = [97, 32, 98]"
    using title_resolution [where isspace = unicode_isspace and space = 32 and path = None
        and raw = "Some [97, 12288, 8195, 98]"]
    by (simp only: u)
  moreover have "words_of py_isspace (spaced (CHR '' '') (words_of py_isspace '' Spec  C ''))
       = [''Spec'', ''C'']"
    using t [of "Spec None None None"] sp by (simp add: w)
  moreover have "map se_title (specs (summarize_playwright_json test_report))
       = [''e2e Spec A'', ''e2e Spec B'', ''Spec C'', ''Spec C'']"
    using t [of "Spec None None None"] by (simp only: m)
  ultimately show ?thesis
    by blast
qed

text \<open>
  C6. In the JUnit report there is one child for each specs entry. A child whose status
  is "failed" carries a failure element whose message is the error text of the first
  failures entry with the title of the spec, and "Test failed" when there is no such
  entry or it has no error text. The time attribute of each child is the duration
  divided by 1000 with exactly three decimal places; for a duration from 0 up to
  \<open>1000 * 2 ^ 43\<close> milliseconds it is the exact quotient. (The report is written unless
  a duration is so large that the division raises \<^verbatim>\<open>OverflowError\<close>.)
\<close>

theorem junit_children:
  "(list_all (\<lambda>spec. \<not> overflows (se_duration_ms spec)) (specs s) \<longrightarrow>
      write_junit_xml now s =
        Inr (Element ''testsuite''
               [(''name'', ''choices-e2e''), (''tests'', py_str (total s)),
                (''failures'', py_str (failed s)), (''skipped'', py_str (skipped s)),
                (''timestamp'', now @ ''Z'')]
               None (map (junit_child (failures s)) (specs s))))
   \<and> (\<not> overflows d \<longrightarrow> three_places (seconds_text d))
   \<and> (0 \<le> d \<and> d < 8796093022208000 \<longrightarrow>
        \<not> overflows d \<and> seconds_text d = three_decimals d)"
  by (simp add: write_junit_xml_def testcases_no_overflow seconds_text_places seconds_text_exact)

theorem junit_children_witness:
  "write_junit_xml ''2024-05-01T12:00:00'' (summarize_playwright_json test_report) =
     Inr (Element ''testsuite''
            [(''name'', ''choices-e2e''), (''tests'', ''4''), (''failures'', ''1''),
             (''skipped'', ''1''), (''timestamp'', ''2024-05-01T12:00:00Z'')]
            None
            [Element ''testcase'' [(''name'', ''e2e Spec A''), (''time'', ''1.200'')] None [],
             Element ''testcase'' [(''name'', ''e2e Spec B''), (''time'', ''0.500'')] None
               [Element ''failure'' [(''message'', ''boom'')] (Some ''boom'') []],
             Element ''testcase'' [(''name'', ''Spec C''), (''time'', ''0.000'')] None [],
             Element ''testcase'' [(''name'', ''Spec C''), (''time'', ''0.007'')] None []])
   \<and> three_places ''1.200''"
proof -
  let ?s = "\<lparr>total = 4, passed = 1, failed = 1, skipped = 1,
       specs = [SpecEntry ''e2e Spec A'' 1200 ''passed'', SpecEntry ''e2e Spec B'' 500 ''failed'',
                SpecEntry ''Spec C'' 0 ''timedOut'', SpecEntry ''Spec C'' 7 ''unknown''],
       failures = [FailureEntry ''e2e Spec B'' 500 (Some ''boom'')]\<rparr>"
  note j = junit_children [where s = ?s and now = "''2024-05-01T12:00:00''"]
  have d: "three_decimals 1200 = ''1.200''" "three_decimals 500 = ''0.500''"
      "three_decimals 0 = ''0.000''" "three_decimals 7 = ''0.007''"
    by code_simp+
  have t: "\<not> overflows 1200 \<and> seconds_text 1200 = ''1.200''"
      "\<not> overflows 500 \<and> seconds_text 500 = ''0.500''"
      "\<not> overflows 0 \<and> seconds_text 0 = ''0.000''"
      "\<not> overflows 7 \<and> seconds_text 7 = ''0.007''"
    using j [of 1200] j [of 500] j [of 0] j [of 7] by (simp_all add: d)
  have m: "failure_message [FailureEntry ''e2e Spec B'' 500 (Some ''boom'')] ''e2e Spec B''
             = ''boom''"
    by (simp add: failure_message_def)
  have n: "py_str 4 = ''4''" "py_str 1 = ''1''"
    by code_simp+
  have "three_places (seconds_text 1200)"
    using j [of 1200] t(1) by blast
  then have "three_places ''1.200''"
    using t(1) by simp
  moreover have "write_junit_xml ''2024-05-01T12:00:00'' ?s =
     Inr (Element ''testsuite''
            [(''name'', ''choices-e2e''), (''tests'', ''4''), (''failures'', ''1''),
             (''skipped'', ''1''), (''timestamp'', ''2024-05-01T12:00:00Z'')]
            None
            [Element ''testcase'' [(''name'', ''e2e Spec A''), (''time'', ''1.200'')] None [],
             Element ''testcase'' [(''name'', ''e2e Spec B''), (''time'', ''0.500'')] None
               [Element ''failure'' [(''message'', ''boom'')] (Some ''boom'') []],
             Element ''testcase'' [(''name'', ''Spec C''), (''time'', ''0.000'')] None [],
             Element ''testcase'' [(''name'', ''Spec C''), (''time'', ''0.007'')] None []])"
    using j [of 0] t by (simp add: junit_child_def m n)
  ultimately show ?thesis
    by (simp add: test_report_summary)
qed

text \<open>
  C7. With the configuration present: if the request with the elevated (service-role)
  credential fails with an HTTP error status, main returns 1; if it succeeds and the
  request with the restricted (anonymous) credential fails with HTTP status 401 or 403,
  main returns 0; if it succeeds and the restricted request fails with any other HTTP
  status, main returns 0 and prints a warning. Each request here gives a response or an
  HTTP error.
\<close>

theorem classification_by_status:
  assumes "configured e"
  shows "(service_role_request e net = RaisedHTTPError c' \<and>
            (anon_request e net = Returned d \<or> anon_request e net = RaisedHTTPError c)
          \<longrightarrow> main e net = Inr ([FAIL_service_role c'], 1))
       \<and> (service_role_request e net = Returned d' \<and> anon_request e net = RaisedHTTPError c
            \<and> (c = 401 \<or> c = 403)
          \<longrightarrow> main e net = Inr ([OK_anon_blocked], 0))
       \<and> (service_role_request e net = Returned d' \<and> anon_request e net = RaisedHTTPError c
            \<and> c \<noteq> 401 \<and> c \<noteq> 403
          \<longrightarrow> main e net = Inr ([WARN_anon c], 0))"
  using assms by (auto simp: main_configured)

theorem classification_by_status_witness:
  "configured the_env
   \<and> main the_env (net_of (Returned three_rows) (RaisedHTTPError 500))
       = Inr ([FAIL_service_role 500], 1)
   \<and> main the_env (net_of (RaisedHTTPError 404) (RaisedHTTPError 500))
       = Inr ([FAIL_service_role 500], 1)
   \<and> main the_env (net_of (RaisedHTTPError 401) (Returned three_rows))
       = Inr ([OK_anon_blocked], 0)
   \<and> main the_env (net_of (RaisedHTTPError 403) (Returned three_rows))
       = Inr ([OK_anon_blocked], 0)
   \<and> main the_env (net_of (RaisedHTTPError 500) (Returned three_rows))
       = Inr ([WARN_anon 500], 0)"
proof -
  have c: "configured the_env"
    by (simp add: configured_def the_env_def truthy_def)
  have a: "anon_request the_env (net_of x y) = x" for x y
    by (simp add: anon_request_def fetch_def net_of_def the_env_def)
  have s: "service_role_request the_env (net_of x y) = y" for x y
    by (simp add: service_role_request_def fetch_def net_of_def the_env_def)
  show ?thesis
    using c
      classification_by_status [OF c, of "net_of (Returned three_rows) (RaisedHTTPError 500)"
        500 three_rows]
      classification_by_status [OF c, of "net_of (RaisedHTTPError 404) (RaisedHTTPError 500)"
        500 _ 404]
      classification_by_status [OF c, of "net_of (RaisedHTTPError 401) (Returned three_rows)"
        _ _ 401 three_rows]
      classification_by_status [OF c, of "net_of (RaisedHTTPError 403) (Returned three_rows)"
        _ _ 403 three_rows]
      classification_by_status [OF c, of "net_of (RaisedHTTPError 500) (Returned three_rows)"
        _ _ 500 three_rows]
    by (simp add: a s)
qed

text \<open>
  C8. When both requests succeed and the rows of the restricted result are objects with
  a privacy\_level member, main returns 1 whenever one of these rows has privacy\_level
  "private".
\<close>

theorem private_row_fails:
  assumes "configured e"
    and "anon_request e net = Returned (JArr rows)"
    and "service_role_request e net = Returned d'"
    and "list_all (\<lambda>r. is_object r \<and> has_privacy_level r) rows"
    and "list_ex is_private rows"
  shows "\<exists>printed. main e net = Inr (printed, 1)"
proof -
  have objs: "list_all is_object rows"
    using assms(4) by (simp add: list_all_iff)
  have ps: "privates rows = Inr (filter is_private rows)"
    using objs by (rule privates_objects)
  have ne: "filter is_private rows \<noteq> []"
    using assms(5) by (simp add: list_ex_iff filter_empty_conv)
  obtain r rest where rows: "rows = r # rest"
    using assms(5) by (cases rows) simp_all
  have first: "has_privacy_level (hd rows)"
    using assms(4) by (simp add: rows)
  have cnt: "row_count (Some (JArr rows)) \<noteq> 0"
    by (simp add: row_count_def rows)
  show ?thesis
    using ne by (simp add: main_configured [OF assms(1)] assms(2,3) rows_of_def ps first cnt
        del: row_count_def)
qed

theorem private_row_fails_witness:
  "main the_env (net_of (Returned three_rows) (Returned three_rows))
     = Inr ([FAIL_private_rows 1], 1)"
proof -
  have c: "configured the_env"
    by (simp add: configured_def the_env_def truthy_def)
  have a: "anon_request the_env (net_of x y) = x" for x y
    by (simp add: anon_request_def fetch_def net_of_def the_env_def)
  have s: "service_role_request the_env (net_of x y) = y" for x y
    by (simp add: service_role_request_def fetch_def net_of_def the_env_def)
  have m: "main the_env (net_of (Returned three_rows) (Returned three_rows))
     = Inr ([FAIL_private_rows 1], 1)"
    by code_simp
  have "\<exists>printed. main the_env (net_of (Returned three_rows) (Returned three_rows))
          = Inr (printed, 1)"
    by (rule private_row_fails [OF c, of _ "[JObj [(''id'', JInt 1), (''privacy_level'', JStr ''public'')],
           JObj [(''id'', JInt 2), (''privacy_level'', JStr ''private'')],
           JObj [(''id'', JInt 3), (''privacy_level'', JStr ''public'')]]" three_rows])
       (simp_all add: a s three_rows_def is_object_def has_privacy_level_def is_private_def)
  then show ?thesis
    by (simp add: m)
qed

text \<open>
  C9, as stated: a time-out or a network error of a request is classified like an HTTP
  error of the same credential (elevated: exit code 1; restricted, with the elevated
  request succeeding: exit code 0) and never leaves main as an exception.
  \<^verbatim>\<open>try_fetch\<close> catches \<^verbatim>\<open>HTTPError\<close> only. A time-out of the restricted request leaves
  main as \<^verbatim>\<open>TimeoutError\<close>, and so does a time-out of the elevated request: main returns
  no exit code.
\<close>

theorem timeout_counterexample:
  "main the_env (net_of (Raised TimeoutError) (Returned three_rows)) = Inl TimeoutError
   \<and> main the_env (net_of (Returned three_rows) (Raised TimeoutError)) = Inl TimeoutError
   \<and> main the_env (net_of (Raised URLError) (Returned three_rows)) = Inl URLError"
  by (simp add: main_def the_env_def net_of_def try_fetch_def fetch_def truthy_def)

text \<open>
  C9, amended. An HTTP error response is caught by \<^verbatim>\<open>try_fetch\<close> and handed to main as
  the error of the pair. A time-out or a network error is not: raised by the restricted
  request, which is sent first, it leaves main at once; raised by the elevated request,
  after the restricted request has given a response or an HTTP error, it leaves main too.
\<close>

theorem only_http_errors_are_caught:
  assumes "configured e"
  shows "(anon_request e net = Raised x \<longrightarrow> main e net = Inl x)
       \<and> (service_role_request e net = Raised x \<and>
            (anon_request e net = Returned d \<or> anon_request e net = RaisedHTTPError c)
          \<longrightarrow> main e net = Inl x)
       \<and> (fetch net n url key = Raised x \<longrightarrow> try_fetch net n url key = Inl x)
       \<and> (fetch net n url key = RaisedHTTPError c
          \<longrightarrow> try_fetch net n url key = Inr (None, Some c))"
  using assms by (auto simp: main_configured try_fetch_def)

theorem only_http_errors_are_caught_witness:
  "configured the_env
   \<and> main the_env (net_of (Raised TimeoutError) (Returned three_rows)) = Inl TimeoutError
   \<and> main the_env (net_of (RaisedHTTPError 500) (Raised URLError)) = Inl URLError
   \<and> try_fetch (net_of (Raised TimeoutError) (Returned three_rows)) 0 ''u'' ''anon''
       = Inl TimeoutError
   \<and> try_fetch (net_of (RaisedHTTPError 401) (Returned three_rows)) 0 ''u'' ''anon''
       = Inr (None, Some 401)"
proof -
  have c: "configured the_env"
    by (simp add: configured_def the_env_def truthy_def)
  have a: "anon_request the_env (net_of x y) = x" for x y
    by (simp add: anon_request_def fetch_def net_of_def the_env_def)
  have s: "service_role_request the_env (net_of x y) = y" for x y
    by (simp add: service_role_request_def fetch_def net_of_def the_env_def)
  have f: "fetch (net_of x y) 0 ''u'' ''anon'' = x" for x y
    by (simp add: fetch_def net_of_def)
  show ?thesis
    using c
      only_http_errors_are_caught [OF c, of "net_of (Raised TimeoutError) (Returned three_rows)"
        TimeoutError _ _ 0 "''u''" "''anon''"]
      only_http_errors_are_caught [OF c, of "net_of (RaisedHTTPError 500) (Raised URLError)"
        URLError _ 500 0 "''u''" "''anon''"]
      only_http_errors_are_caught [OF c, of "net_of (RaisedHTTPError 401) (Returned three_rows)"
        _ _ 401 0 "''u''" "''anon''"]
    by (simp add: a s f)
qed

text \<open>
  C10. For every well-formed result tree the summary has as many specs records as total
  says and as many failures records as failed says: one specs record for each Result
  node, and one failures record for each Result node whose status is failed, in document
  order.
\<close>

theorem one_record_per_result:
  "int (length (specs (summarize_playwright_json data))) = total (summarize_playwright_json data)
   \<and> int (length (failures (summarize_playwright_json data)))
       = failed (summarize_playwright_json data)
   \<and> specs (summarize_playwright_json data) = map entry_of (results_of_report data)
   \<and> failures (summarize_playwright_json data)
       = map failure_of (filter is_failed (results_of_report data))"
  by (simp add: summarize_fold total_fold specs_fold failures_fold failed_fold)

end
